theory Spec2Isabelle
  imports Main
begin

section \<open>The update command of the Tailscale CLI\<close>

text \<open>
  A shallow embedding of \<^verbatim>\<open>cmd/tailscale/cli/update.go\<close>. Go strings and byte slices are
  \<^typ>\<open>string\<close> (lists of bytes); Go's \<^verbatim>\<open>error\<close> results are values of the datatype
  \<open>error\<close>; everything a function reads from the process, the file system or the network
  is an explicit argument.
\<close>

subsection \<open>Errors\<close>

datatype fmtArg = Str string | Num int

datatype error =
    errUserAborted  \<comment> \<open>the package variable \<^verbatim>\<open>errUserAborted = errors.New("aborting update")\<close>\<close>
  | ErrHelp  \<comment> \<open>\<^verbatim>\<open>flag.ErrHelp\<close>\<close>
  | New string  \<comment> \<open>\<^verbatim>\<open>errors.New(text)\<close>\<close>
  | Errorf string "fmtArg list"  \<comment> \<open>\<^verbatim>\<open>fmt.Errorf(format, args...)\<close> without \<^verbatim>\<open>%w\<close>\<close>
  | Wrapf string "fmtArg list" error
      \<comment> \<open>\<^verbatim>\<open>fmt.Errorf(format, args...)\<close> whose \<^verbatim>\<open>%w\<close> operand is the last component\<close>
  | External string  \<comment> \<open>an error of the operating system, the network or a subprocess\<close>

fun errorsIs :: "error \<Rightarrow> error \<Rightarrow> bool" where
  \<comment> \<open>\<^verbatim>\<open>errors.Is(err, target)\<close>: the chain of \<^verbatim>\<open>%w\<close> operands is searched for the target.\<close>
  "errorsIs (Wrapf f as e) target = (Wrapf f as e = target \<or> errorsIs e target)"
| "errorsIs e target = (e = target)"

abbreviation LF :: char where "LF \<equiv> CHR 0x0A"
abbreviation CR :: char where "CR \<equiv> CHR 0x0D"

subsection \<open>Library functions of package strings and strconv\<close>

definition HasPrefix :: "string \<Rightarrow> string \<Rightarrow> bool" where
  \<comment> \<open>\<^verbatim>\<open>strings.HasPrefix(s, prefix)\<close>\<close>
  "HasPrefix s p = (length p \<le> length s \<and> take (length p) s = p)"

definition HasSuffix :: "string \<Rightarrow> string \<Rightarrow> bool" where
  \<comment> \<open>\<^verbatim>\<open>strings.HasSuffix(s, suffix)\<close>\<close>
  "HasSuffix s p = (length p \<le> length s \<and> drop (length s - length p) s = p)"

fun Cut :: "string \<Rightarrow> char \<Rightarrow> (string \<times> string) option" where
  \<comment> \<open>\<^verbatim>\<open>strings.Cut(s, sep)\<close> for a one-byte separator: the text before and after the
      first occurrence of the separator, or \<open>None\<close> when there is none (\<^verbatim>\<open>found == false\<close>).\<close>
  "Cut [] sep = None"
| "Cut (c # cs) sep =
     (if c = sep then Some ([], cs)
      else (case Cut cs sep of None \<Rightarrow> None | Some (before, after) \<Rightarrow> Some (c # before, after)))"

definition isDigit :: "char \<Rightarrow> bool" where
  "isDigit c = (48 \<le> (of_char c :: nat) \<and> (of_char c :: nat) \<le> 57)"

definition digitVal :: "char \<Rightarrow> nat" where
  "digitVal c = (of_char c :: nat) - 48"

fun parseDigits :: "nat \<Rightarrow> string \<Rightarrow> nat option" where
  \<comment> \<open>The digit loop of \<^verbatim>\<open>strconv.Atoi\<close>: \<^verbatim>\<open>n = n*10 + int(ch - '0')\<close>, a syntax error
      at the first byte that is not a decimal digit.\<close>
  "parseDigits n [] = Some n"
| "parseDigits n (c # cs) = (if isDigit c then parseDigits (n * 10 + digitVal c) cs else None)"

definition intSize :: nat where
  \<comment> \<open>The width of Go's \<^verbatim>\<open>int\<close> on the 64-bit platforms.\<close>
  "intSize = 64"

definition Atoi :: "string \<Rightarrow> int option" where
  \<comment> \<open>\<^verbatim>\<open>strconv.Atoi\<close>: an optional sign, at least one decimal digit, nothing else, and a
      value that fits \<^verbatim>\<open>int\<close>; \<open>None\<close> is a non-nil error (syntax or range).\<close>
  "Atoi s =
     (let neg = (s \<noteq> [] \<and> hd s = CHR ''-'');
          ds = (if s \<noteq> [] \<and> (hd s = CHR ''-'' \<or> hd s = CHR ''+'') then tl s else s)
      in if ds = [] then None
         else (case parseDigits 0 ds of
                 None \<Rightarrow> None
               | Some n \<Rightarrow>
                   (let v = (if neg then - int n else int n)
                    in if - (2 ^ (intSize - 1)) \<le> v \<and> v \<le> 2 ^ (intSize - 1) - 1
                       then Some v else None)))"

definition goRem :: "int \<Rightarrow> int \<Rightarrow> int" where
  \<comment> \<open>Go's \<^verbatim>\<open>%\<close> on integers: the remainder of the division that truncates towards zero.\<close>
  "goRem a b = sgn a * (\<bar>a\<bar> mod \<bar>b\<bar>)"

subsection \<open>Track inference from a version string\<close>

definition versionIsStable :: "string \<Rightarrow> bool \<times> bool" where
  \<comment> \<open>The result is \<open>(stable, wellFormed)\<close>.\<close>
  "versionIsStable v =
     (case Cut v CHR ''.'' of
        None \<Rightarrow> (False, False)
      | Some (_, rest) \<Rightarrow>
          (case Cut rest CHR ''.'' of
             None \<Rightarrow> (False, False)
           | Some (minorStr, _) \<Rightarrow>
               (case Atoi minorStr of
                  None \<Rightarrow> (False, False)
                | Some minor \<Rightarrow> (goRem minor 2 = 0, True))))"


subsection \<open>Library functions of packages bytes, bufio and regexp\<close>

definition isAsciiSpace :: "char \<Rightarrow> bool" where
  \<comment> \<open>The table \<^verbatim>\<open>asciiSpace\<close> of packages bytes and strings: tab, LF, VT, FF, CR, space.\<close>
  "isAsciiSpace c = ((of_char c :: nat) \<in> {9, 10, 11, 12, 13, 32})"

definition spaceRunes :: "string list" where
  \<comment> \<open>The UTF-8 encodings of the code points for which \<^verbatim>\<open>unicode.IsSpace\<close> holds:
      the six ASCII ones, U+0085, U+00A0, U+1680, U+2000 to U+200A, U+2028, U+2029,
      U+202F, U+205F and U+3000.\<close>
  "spaceRunes =
     [[CHR 0x09], [LF], [CHR 0x0B], [CHR 0x0C], [CR], [CHR 0x20],
      [CHR 0xC2, CHR 0x85], [CHR 0xC2, CHR 0xA0], [CHR 0xE1, CHR 0x9A, CHR 0x80],
      [CHR 0xE2, CHR 0x80, CHR 0x80], [CHR 0xE2, CHR 0x80, CHR 0x81],
      [CHR 0xE2, CHR 0x80, CHR 0x82], [CHR 0xE2, CHR 0x80, CHR 0x83],
      [CHR 0xE2, CHR 0x80, CHR 0x84], [CHR 0xE2, CHR 0x80, CHR 0x85],
      [CHR 0xE2, CHR 0x80, CHR 0x86], [CHR 0xE2, CHR 0x80, CHR 0x87],
      [CHR 0xE2, CHR 0x80, CHR 0x88], [CHR 0xE2, CHR 0x80, CHR 0x89],
      [CHR 0xE2, CHR 0x80, CHR 0x8A], [CHR 0xE2, CHR 0x80, CHR 0xA8],
      [CHR 0xE2, CHR 0x80, CHR 0xA9], [CHR 0xE2, CHR 0x80, CHR 0xAF],
      [CHR 0xE2, CHR 0x81, CHR 0x9F], [CHR 0xE3, CHR 0x80, CHR 0x80]]"

definition leadingSpace :: "string \<Rightarrow> nat" where
  \<comment> \<open>The width in bytes of the white-space rune the text starts with, 0 when it starts
      with none.\<close>
  "leadingSpace s = (case find (HasPrefix s) spaceRunes of None \<Rightarrow> 0 | Some r \<Rightarrow> length r)"

definition trailingSpace :: "string \<Rightarrow> nat" where
  "trailingSpace s = (case find (HasSuffix s) spaceRunes of None \<Rightarrow> 0 | Some r \<Rightarrow> length r)"

function TrimLeftSpace :: "string \<Rightarrow> string" where
  "TrimLeftSpace s =
     (if leadingSpace s = 0 \<or> length s < leadingSpace s then s
      else TrimLeftSpace (drop (leadingSpace s) s))"
  by pat_completeness auto
termination
  by (relation "measure length") auto

function TrimRightSpace :: "string \<Rightarrow> string" where
  "TrimRightSpace s =
     (if trailingSpace s = 0 \<or> length s < trailingSpace s then s
      else TrimRightSpace (take (length s - trailingSpace s) s))"
  by pat_completeness auto
termination
  by (relation "measure length") auto

declare TrimLeftSpace.simps [simp del] TrimRightSpace.simps [simp del]

definition TrimSpace :: "string \<Rightarrow> string" where
  \<comment> \<open>\<^verbatim>\<open>bytes.TrimSpace\<close> and \<^verbatim>\<open>strings.TrimSpace\<close>: leading, then trailing white-space
      runes are removed. A byte sequence that is not the encoding of a white-space code
      point decodes to another rune or to \<^verbatim>\<open>utf8.RuneError\<close> and stops the trimming.\<close>
  "TrimSpace s = TrimRightSpace (TrimLeftSpace s)"

definition maxScanTokenSize :: nat where
  \<comment> \<open>\<^verbatim>\<open>bufio.MaxScanTokenSize\<close>\<close>
  "maxScanTokenSize = 64 * 1024"

definition dropCR :: "string \<Rightarrow> string" where
  \<comment> \<open>\<^verbatim>\<open>dropCR\<close> of package bufio: one trailing carriage return is removed.\<close>
  "dropCR line = (if line \<noteq> [] \<and> last line = CR then butlast line else line)"

fun scanFrom :: "string \<Rightarrow> string \<Rightarrow> string list" where
  \<comment> \<open>The tokens a \<^verbatim>\<open>bufio.Scanner\<close> with the default split function
      \<^verbatim>\<open>ScanLines\<close> and the default buffer delivers; the first argument holds the bytes
      of the line being read. A line of \<open>maxScanTokenSize\<close> bytes or more does not fit
      the buffer: \<^verbatim>\<open>Scan\<close> returns false there (\<^verbatim>\<open>bufio.ErrTooLong\<close>), which ends a
      \<^verbatim>\<open>for s.Scan()\<close> loop like the end of the input does. A final line without a
      newline is a token, an empty final line is not.\<close>
  "scanFrom line [] =
     (if line = [] \<or> maxScanTokenSize \<le> length line then [] else [dropCR line])"
| "scanFrom line (c # cs) =
     (if c = LF
      then (if maxScanTokenSize \<le> length line then [] else dropCR line # scanFrom [] cs)
      else scanFrom (line @ [c]) cs)"

definition scanLines :: "string \<Rightarrow> string list" where
  "scanLines data = scanFrom [] data"

definition isRegexpSpace :: "char \<Rightarrow> bool" where
  \<comment> \<open>The class \<^verbatim>\<open>\s\<close> of Go's regexp syntax: tab, LF, FF, CR, space.\<close>
  "isRegexpSpace c = ((of_char c :: nat) \<in> {9, 10, 12, 13, 32})"

definition isWordChar :: "char \<Rightarrow> bool" where
  \<comment> \<open>The class \<^verbatim>\<open>\w\<close>, which decides \<^verbatim>\<open>\b\<close>: ASCII letters, digits and underscore.\<close>
  "isWordChar c =
     (let n = (of_char c :: nat)
      in (48 \<le> n \<and> n \<le> 57) \<or> (65 \<le> n \<and> n \<le> 90) \<or> (97 \<le> n \<and> n \<le> 122) \<or> n = 95)"

subsection \<open>File system\<close>

record fsys =
  files :: "string \<rightharpoonup> string"  \<comment> \<open>the content of every readable file, by path\<close>
  writable :: "string \<Rightarrow> bool"  \<comment> \<open>whether \<^verbatim>\<open>os.WriteFile\<close> succeeds on the path\<close>

definition ReadFile :: "fsys \<Rightarrow> string \<Rightarrow> error + string" where
  "ReadFile fs name =
     (case files fs name of None \<Rightarrow> Inl (External ''open: no such file'') | Some b \<Rightarrow> Inr b)"

definition WriteFile :: "fsys \<Rightarrow> string \<Rightarrow> string \<Rightarrow> error option \<times> fsys" where
  "WriteFile fs name data =
     (if writable fs name then (None, fs\<lparr>files := (files fs)(name \<mapsto> data)\<rparr>)
      else (Some (External ''open: permission denied''), fs))"

subsection \<open>Rewriting the apt sources list\<close>

definition aptSourcesFile :: string where
  "aptSourcesFile = ''/etc/apt/sources.list.d/tailscale.list''"

definition commentLine :: "string \<Rightarrow> bool" where
  \<comment> \<open>\<^verbatim>\<open>commentLine.Match(line)\<close> for the regular expression \<^verbatim>\<open>^\s*\#\<close>\<close>
  "commentLine line =
     (case dropWhile isRegexpSpace line of [] \<Rightarrow> False | c # _ \<Rightarrow> c = CHR ''#'')"

definition matchPkgsURL :: "string \<Rightarrow> string option" where
  \<comment> \<open>The text that \<^verbatim>\<open>https://pkgs\.tailscale\.com/((un)?stable)/\<close> matches at the very
      beginning of the given text, if it matches there.\<close>
  "matchPkgsURL s =
     (if HasPrefix s ''https://pkgs.tailscale.com/unstable/''
      then Some ''https://pkgs.tailscale.com/unstable/''
      else if HasPrefix s ''https://pkgs.tailscale.com/stable/''
      then Some ''https://pkgs.tailscale.com/stable/''
      else None)"

type_synonym counters = "nat \<times> bool"  \<comment> \<open>the captured variables \<^verbatim>\<open>changes\<close> and \<^verbatim>\<open>hadCorrect\<close>\<close>

definition replFunc :: "string \<Rightarrow> string \<Rightarrow> counters \<Rightarrow> string \<times> counters" where
  \<comment> \<open>The closure given to \<^verbatim>\<open>ReplaceAllFunc\<close>, called with a match \<open>m\<close>.\<close>
  "replFunc urlPrefix m st =
     (if m = urlPrefix then (urlPrefix, (fst st, True))
      else (urlPrefix, (fst st + 1, snd st)))"

function pkgsURL_ReplaceAllFunc :: "string \<Rightarrow> bool \<Rightarrow> string \<Rightarrow> counters \<Rightarrow> string \<times> counters" where
  \<comment> \<open>\<^verbatim>\<open>pkgsURL.ReplaceAllFunc(line, repl)\<close> for
      \<^verbatim>\<open>\bhttps://pkgs\.tailscale\.com/((un)?stable)/\<close>: the matches are found from left to
      right and do not overlap. The flag says whether the byte before the current
      position is a word character: the pattern starts with a word character, so
      \<^verbatim>\<open>\b\<close> holds exactly when that byte is none (or there is no such byte).\<close>
  "pkgsURL_ReplaceAllFunc urlPrefix prevWord [] st = ([], st)"
| "pkgsURL_ReplaceAllFunc urlPrefix prevWord (c # cs) st =
     (case (if prevWord then None else matchPkgsURL (c # cs)) of
        Some m \<Rightarrow>
          (let (r, st') = replFunc urlPrefix m st;
               (out, st'') = pkgsURL_ReplaceAllFunc urlPrefix (isWordChar (last m))
                               (drop (length m) (c # cs)) st'
           in (r @ out, st''))
      | None \<Rightarrow>
          (let (out, st') = pkgsURL_ReplaceAllFunc urlPrefix (isWordChar c) cs st
           in (c # out, st')))"
  by pat_completeness auto
termination
  by (relation "measure (\<lambda>(p, w, s, st). length s)")
     (auto simp: matchPkgsURL_def split: if_splits)

definition trackURLPrefix :: "string \<Rightarrow> string" where
  \<comment> \<open>The local variable \<^verbatim>\<open>trackURLPrefix\<close> of \<^verbatim>\<open>updateDebianAptSourcesListBytes\<close>\<close>
  "trackURLPrefix dstTrack = ''https://pkgs.tailscale.com/'' @ dstTrack @ ''/''"

definition aptLine :: "string \<Rightarrow> string \<times> counters \<Rightarrow> string \<Rightarrow> string \<times> counters" where
  \<comment> \<open>One round of the scanning loop: the line is rewritten unless it is a comment, and
      written to \<^verbatim>\<open>buf\<close> with a newline.\<close>
  "aptLine urlPrefix acc line =
     (let (buf, st) = acc;
          (line', st') = (if \<not> commentLine line
                          then pkgsURL_ReplaceAllFunc urlPrefix False line st
                          else (line, st))
      in (buf @ line' @ [LF], st'))"

definition aptScan :: "string \<Rightarrow> string \<Rightarrow> string \<times> counters" where
  \<comment> \<open>The loop \<^verbatim>\<open>for bs.Scan()\<close>: the final \<^verbatim>\<open>buf\<close>, \<^verbatim>\<open>changes\<close> and \<^verbatim>\<open>hadCorrect\<close>.\<close>
  "aptScan was dstTrack =
     foldl (aptLine (trackURLPrefix dstTrack)) ([], (0, False)) (scanLines was)"

definition updateDebianAptSourcesListBytes :: "string \<Rightarrow> string \<Rightarrow> error + string" where
  "updateDebianAptSourcesListBytes was dstTrack =
     (let (buf, changes, hadCorrect) = aptScan was dstTrack
      in if hadCorrect \<or> (changes = 1 \<and> TrimSpace was = TrimSpace buf) then Inr was
         else if changes \<noteq> 1
         then Inl (Errorf ''unexpected/unsupported %s contents'' [Str aptSourcesFile])
         else Inr buf)"

definition updateDebianAptSourcesList :: "fsys \<Rightarrow> string \<Rightarrow> (bool \<times> error option) \<times> fsys" where
  \<comment> \<open>The result is \<open>((rewrote, err), fs')\<close>.\<close>
  "updateDebianAptSourcesList fs dstTrack =
     (case ReadFile fs aptSourcesFile of
        Inl err \<Rightarrow> ((False, Some err), fs)
      | Inr was \<Rightarrow>
          (case updateDebianAptSourcesListBytes was dstTrack of
             Inl err \<Rightarrow> ((False, Some err), fs)
           | Inr newContent \<Rightarrow>
               if was = newContent then ((False, None), fs)
               else (let (err, fs') = WriteFile fs aptSourcesFile newContent
                     in ((True, err), fs'))))"

subsection \<open>Rewriting the yum repository file\<close>

definition yumRepoConfigFile :: string where
  "yumRepoConfigFile = ''/etc/yum.repos.d/tailscale.repo''"

fun numLoop :: "int \<Rightarrow> string \<Rightarrow> int" where
  \<comment> \<open>The number a capture name denotes, \<open>-1\<close> when it is not a number.\<close>
  "numLoop num [] = num"
| "numLoop num (c # cs) =
     (if \<not> isDigit c \<or> 100000000 \<le> num then - 1
      else numLoop (num * 10 + int (digitVal c)) cs)"

definition extractTemplate :: "string \<Rightarrow> (string \<times> int \<times> nat) option" where
  \<comment> \<open>\<^verbatim>\<open>extract\<close> of package regexp, on the text after a \<^verbatim>\<open>$\<close>: the capture name,
      its number and the count of bytes consumed; \<open>None\<close> for \<^verbatim>\<open>ok == false\<close>. Names are
      taken over the ASCII letters, digits and underscore.\<close>
  "extractTemplate str =
     (if str = [] then None
      else (let brace = (hd str = CHR ''{'');
                s = (if brace then tl str else str);
                name = takeWhile isWordChar s;
                after = dropWhile isWordChar s
            in if name = [] then None
               else if brace \<and> (after = [] \<or> hd after \<noteq> CHR ''}'') then None
               else Some (name,
                          if hd name = CHR ''0'' \<and> 1 < length name then - 1 else numLoop 0 name,
                          length name + (if brace then 2 else 0))))"

fun expand :: "string \<Rightarrow> string option list \<Rightarrow> string" where
  \<comment> \<open>\<^verbatim>\<open>Regexp.expand\<close> for a regular expression without named groups: the template with
      \<^verbatim>\<open>$$\<close> replaced by a dollar sign and \<^verbatim>\<open>$n\<close>, \<^verbatim>\<open>${n}\<close> by the text of group \<open>n\<close>
      (nothing when the group is absent or took no part in the match, or the name is
      no number).\<close>
  "expand [] caps = []"
| "expand (c # cs) caps =
     (if c \<noteq> CHR ''$'' then c # expand cs caps
      else if cs \<noteq> [] \<and> hd cs = CHR ''$'' then CHR ''$'' # expand (tl cs) caps
      else (case extractTemplate cs of
              None \<Rightarrow> CHR ''$'' # expand cs caps
            | Some (name, num, n) \<Rightarrow>
                (if 0 \<le> num \<and> nat num < length caps
                 then (case caps ! nat num of Some g \<Rightarrow> g | None \<Rightarrow> [])
                 else [])
                @ expand (drop n cs) caps))"

definition urlRe_match :: "string \<Rightarrow> (nat \<times> string option list) option" where
  \<comment> \<open>The match of \<^verbatim>\<open>^(baseurl|gpgkey)=https://pkgs\.tailscale\.com/(un)?stable/\<close>: its
      length and the texts of groups 0, 1 and 2.\<close>
  "urlRe_match line =
     (case (if HasPrefix line ''baseurl'' then Some ''baseurl''
            else if HasPrefix line ''gpgkey'' then Some ''gpgkey'' else None) of
        None \<Rightarrow> None
      | Some key \<Rightarrow>
          (let rest = drop (length key) line
           in if HasPrefix rest ''=https://pkgs.tailscale.com/unstable/''
              then Some (length (key @ ''=https://pkgs.tailscale.com/unstable/''),
                         [Some (key @ ''=https://pkgs.tailscale.com/unstable/''), Some key, Some ''un''])
              else if HasPrefix rest ''=https://pkgs.tailscale.com/stable/''
              then Some (length (key @ ''=https://pkgs.tailscale.com/stable/''),
                         [Some (key @ ''=https://pkgs.tailscale.com/stable/''), Some key, None])
              else None))"

definition urlRe_ReplaceAllString :: "string \<Rightarrow> string \<Rightarrow> string" where
  \<comment> \<open>\<^verbatim>\<open>urlRe.ReplaceAllString(line, repl)\<close>: the pattern is anchored at the beginning of
      the text, so there is at most one match.\<close>
  "urlRe_ReplaceAllString line repl =
     (case urlRe_match line of
        None \<Rightarrow> line
      | Some (n, caps) \<Rightarrow> expand repl caps @ drop n line)"

definition yumLine :: "string \<Rightarrow> string \<Rightarrow> string \<Rightarrow> error + string" where
  \<comment> \<open>The body of the loop \<^verbatim>\<open>for s.Scan()\<close> of \<^verbatim>\<open>updateYUMRepoTrack\<close>: the bytes it
      writes to \<^verbatim>\<open>newContent\<close> for a line, or the error it returns.\<close>
  "yumLine repoFile dstTrack line =
     (if 0 < length line \<and> hd line = CHR ''[''
      then (if \<not> HasPrefix line ''[tailscale-''
            then Inl (Errorf
                   ''%q does not look like a tailscale repo file, it contains an unexpected %q section''
                   [Str repoFile, Str line])
            else Inr (''[tailscale-'' @ dstTrack @ '']'' @ [LF]))
      else if HasPrefix line ''name=''
      then Inr (''name=Tailscale '' @ dstTrack @ [LF])
      else if HasPrefix line ''baseurl='' \<or> HasPrefix line ''gpgkey=''
      then Inr (urlRe_ReplaceAllString line (''$1=https://pkgs.tailscale.com/'' @ dstTrack @ ''/'')
                @ [LF])
      else Inr (line @ [LF]))"

fun yumLines :: "string \<Rightarrow> string \<Rightarrow> string list \<Rightarrow> string \<Rightarrow> error + string" where
  \<comment> \<open>The loop over the remaining lines, with the bytes written to \<^verbatim>\<open>newContent\<close> so
      far.\<close>
  "yumLines repoFile dstTrack [] newContent = Inr newContent"
| "yumLines repoFile dstTrack (line # rest) newContent =
     (case yumLine repoFile dstTrack line of
        Inl err \<Rightarrow> Inl err
      | Inr written \<Rightarrow> yumLines repoFile dstTrack rest (newContent @ written))"

definition yumNewContent :: "string \<Rightarrow> string \<Rightarrow> string \<Rightarrow> error + string" where
  \<comment> \<open>The rewriting core of \<^verbatim>\<open>updateYUMRepoTrack\<close>: from the bytes read to the final
      \<^verbatim>\<open>newContent\<close>, or the error of an unexpected section.\<close>
  "yumNewContent repoFile dstTrack was = yumLines repoFile dstTrack (scanLines was) []"

definition updateYUMRepoTrack :: "fsys \<Rightarrow> string \<Rightarrow> string \<Rightarrow> (bool \<times> error option) \<times> fsys" where
  \<comment> \<open>The result is \<open>((rewrote, err), fs')\<close>.\<close>
  "updateYUMRepoTrack fs repoFile dstTrack =
     (case ReadFile fs repoFile of
        Inl err \<Rightarrow> ((False, Some err), fs)
      | Inr was \<Rightarrow>
          (case yumNewContent repoFile dstTrack was of
             Inl err \<Rightarrow> ((False, Some err), fs)
           | Inr newContent \<Rightarrow>
               if was = newContent then ((False, None), fs)
               else (let (err, fs') = WriteFile fs repoFile newContent
                     in ((True, err), fs'))))"

subsection \<open>Notions for the analysis of the rewriters\<close>


abbreviation (input) pkgsURLs :: "string set" where
  "pkgsURLs \<equiv> {''https://pkgs.tailscale.com/stable/'', ''https://pkgs.tailscale.com/unstable/''}"

definition replaced :: "string \<Rightarrow> bool \<Rightarrow> string \<Rightarrow> string" where
  "replaced p w s = fst (pkgsURL_ReplaceAllFunc p w s (0, False))"

definition changed :: "string \<Rightarrow> bool \<Rightarrow> string \<Rightarrow> nat" where
  "changed p w s = fst (snd (pkgsURL_ReplaceAllFunc p w s (0, False)))"

definition correct :: "string \<Rightarrow> bool \<Rightarrow> string \<Rightarrow> bool" where
  "correct p w s = snd (snd (pkgsURL_ReplaceAllFunc p w s (0, False)))"

definition lineOut :: "string \<Rightarrow> string \<Rightarrow> string" where
  "lineOut p l = (if commentLine l then l else replaced p False l)"

definition lineChanges :: "string \<Rightarrow> string \<Rightarrow> nat" where
  "lineChanges p l = (if commentLine l then 0 else changed p False l)"

definition lineCorrect :: "string \<Rightarrow> string \<Rightarrow> bool" where
  "lineCorrect p l = (\<not> commentLine l \<and> correct p False l)"

subsection \<open>The process environment\<close>

datatype distro = Debian | Arch | Synology | OtherDistro string

record response =
  StatusCode :: nat
  Status :: string
  ContentLength :: int
  Body :: string  \<comment> \<open>the bytes the body delivers\<close>
  BodyErr :: "string option"
    \<comment> \<open>the text of the error that ends the body, \<open>None\<close> for \<^verbatim>\<open>io.EOF\<close>\<close>

record env =
  GOOS :: string  \<comment> \<open>\<^verbatim>\<open>runtime.GOOS\<close>\<close>
  GOARCH :: string  \<comment> \<open>\<^verbatim>\<open>runtime.GOARCH\<close>\<close>
  distroGet :: distro  \<comment> \<open>\<^verbatim>\<open>distro.Get()\<close>\<close>
  LookPath :: "string \<Rightarrow> string option"  \<comment> \<open>\<^verbatim>\<open>exec.LookPath\<close>, \<open>None\<close> for an error\<close>
  IsUnstableBuild :: bool  \<comment> \<open>\<^verbatim>\<open>version.IsUnstableBuild()\<close>\<close>
  IsSandboxedMacOS :: bool  \<comment> \<open>\<^verbatim>\<open>version.IsSandboxedMacOS()\<close>\<close>
  versionShort :: string  \<comment> \<open>\<^verbatim>\<open>version.Short()\<close>\<close>
  Getenv :: "string \<Rightarrow> string"  \<comment> \<open>\<^verbatim>\<open>os.Getenv\<close>\<close>
  Geteuid :: int  \<comment> \<open>\<^verbatim>\<open>os.Geteuid()\<close>\<close>
  Scanln :: string
    \<comment> \<open>what \<^verbatim>\<open>fmt.Scanln(&resp)\<close> leaves in \<^verbatim>\<open>resp\<close>: the first word of the line read
        from standard input, the empty string when nothing could be read\<close>
  runCommand :: "nat \<Rightarrow> string list \<Rightarrow> string \<times> string option"
    \<comment> \<open>the combined output and the text of the error of running a command
        (\<^verbatim>\<open>cmd.Run\<close>, \<^verbatim>\<open>cmd.CombinedOutput\<close>), given the number of commands run
        before and the command line\<close>
  httpGetVersion :: "string \<Rightarrow> string + string \<times> (string + string)"
    \<comment> \<open>\<^verbatim>\<open>http.Get(url)\<close> followed by the JSON decoding of the body: the text of the
        error of the request, or the status line with either the text of the decoding
        error or the field \<^verbatim>\<open>Version\<close>\<close>
  httpDo :: "string \<Rightarrow> string \<Rightarrow> string + response"
    \<comment> \<open>\<^verbatim>\<open>c.Do(req)\<close> for a request with the given method and URL, \<open>Inl\<close> with
        the text of its error\<close>
  sha256 :: "string \<Rightarrow> string"  \<comment> \<open>the digest \<^verbatim>\<open>crypto/sha256\<close> computes\<close>
  uuidNewSHA1 :: "string \<Rightarrow> string"
    \<comment> \<open>\<^verbatim>\<open>uuid.NewSHA1(uuid.NameSpaceURL, data).String()\<close>\<close>
  filepathBase :: "string \<Rightarrow> string"  \<comment> \<open>\<^verbatim>\<open>filepath.Base\<close>\<close>
  fileSystem :: fsys
  writeError :: "string \<Rightarrow> string option"
    \<comment> \<open>the text of the error of writing the downloaded bytes to the named file, if
        there is one\<close>
  closeError :: "string \<Rightarrow> string option"
  otherStrategy :: "string \<Rightarrow> error option"
    \<comment> \<open>the result of the strategies not modelled here, by name\<close>

record updateArgs =
  yes :: bool
  dryRun :: bool
  appStore :: bool
  track :: string
  version :: string

datatype strategy =
    UpdateWindows | UpdateSynology | UpdateDebLike | UpdateArchLike
  | UpdateFedoraLike string | UpdateMacSys | UpdateMacAppStore

record updater =
  upTrack :: string  \<comment> \<open>the field \<^verbatim>\<open>track\<close>\<close>
  update :: strategy
    \<comment> \<open>the field \<^verbatim>\<open>update\<close>, which is not \<^verbatim>\<open>nil\<close> in an updater that
        \<^verbatim>\<open>newUpdater\<close> returns\<close>

definition haveExecutable :: "env \<Rightarrow> string \<Rightarrow> bool" where
  "haveExecutable e name = (case LookPath e name of None \<Rightarrow> False | Some path \<Rightarrow> path \<noteq> [])"


subsection \<open>More library functions\<close>

definition ToLower :: "string \<Rightarrow> string" where
  \<comment> \<open>\<^verbatim>\<open>strings.ToLower\<close> on the ASCII letters. Outside ASCII the only code points Go
      maps to an ASCII letter are U+0130 and U+212A, to \<^verbatim>\<open>i\<close> and \<^verbatim>\<open>k\<close>: a text
      with a non-ASCII byte is mapped by Go, as it is here, to a text that differs from
      \<^verbatim>\<open>y\<close>, \<^verbatim>\<open>yes\<close> and \<^verbatim>\<open>sure\<close>.\<close>
  "ToLower s =
     map (\<lambda>c. if 65 \<le> (of_char c :: nat) \<and> (of_char c :: nat) \<le> 90
               then char_of ((of_char c :: nat) + 32) else c) s"

definition ToUpper :: "string \<Rightarrow> string" where
  \<comment> \<open>\<^verbatim>\<open>strings.ToUpper\<close> on the ASCII letters\<close>
  "ToUpper s =
     map (\<lambda>c. if 97 \<le> (of_char c :: nat) \<and> (of_char c :: nat) \<le> 122
               then char_of ((of_char c :: nat) - 32) else c) s"

fun Split :: "string \<Rightarrow> char \<Rightarrow> string list" where
  \<comment> \<open>\<^verbatim>\<open>strings.Split(s, sep)\<close> for a one-byte separator\<close>
  "Split [] sep = [[]]"
| "Split (c # cs) sep =
     (if c = sep then [] # Split cs sep
      else (case Split cs sep of [] \<Rightarrow> [[c]] | x # xs \<Rightarrow> (c # x) # xs))"

definition fromHexChar :: "char \<Rightarrow> nat option" where
  \<comment> \<open>The table \<^verbatim>\<open>reverseHexTable\<close> of package encoding/hex\<close>
  "fromHexChar c =
     (let n = (of_char c :: nat)
      in if 48 \<le> n \<and> n \<le> 57 then Some (n - 48)
         else if 97 \<le> n \<and> n \<le> 102 then Some (n - 87)
         else if 65 \<le> n \<and> n \<le> 70 then Some (n - 55)
         else None)"

fun DecodeString :: "string \<Rightarrow> error + string" where
  \<comment> \<open>\<^verbatim>\<open>hex.DecodeString\<close>: an invalid byte or an odd length is an error\<close>
  "DecodeString [] = Inr []"
| "DecodeString [p] =
     (case fromHexChar p of
        None \<Rightarrow> Inl (External ''encoding/hex: invalid byte'')
      | Some _ \<Rightarrow> Inl (External ''encoding/hex: odd length hex string''))"
| "DecodeString (p # q # rest) =
     (case fromHexChar p of
        None \<Rightarrow> Inl (External ''encoding/hex: invalid byte'')
      | Some a \<Rightarrow>
          (case fromHexChar q of
             None \<Rightarrow> Inl (External ''encoding/hex: invalid byte'')
           | Some b \<Rightarrow>
               (case DecodeString rest of
                  Inl err \<Rightarrow> Inl err
                | Inr bytes \<Rightarrow> Inr (char_of (a * 16 + b) # bytes))))"

subsection \<open>Choosing the track and the strategy\<close>

definition platformUpdate :: "env \<Rightarrow> updateArgs \<Rightarrow> error + strategy option" where
  \<comment> \<open>The statement \<^verbatim>\<open>switch runtime.GOOS\<close> of \<^verbatim>\<open>newUpdater\<close>: the value it leaves in
      \<^verbatim>\<open>up.update\<close>, or the error it returns. On Linux the second \<^verbatim>\<open>switch\<close>
      assigns after the first one.\<close>
  "platformUpdate e a =
     (if GOOS e = ''windows'' then Inr (Some UpdateWindows)
      else if GOOS e = ''linux'' then
        (let u1 = (case distroGet e of
                     Synology \<Rightarrow> Some UpdateSynology
                   | Debian \<Rightarrow> Some UpdateDebLike
                   | Arch \<Rightarrow> Some UpdateArchLike
                   | OtherDistro _ \<Rightarrow> None);
             u2 = (if haveExecutable e ''pacman'' then Some UpdateArchLike
                   else if haveExecutable e ''apt-get'' then Some UpdateDebLike
                   else if haveExecutable e ''dnf'' then Some (UpdateFedoraLike ''dnf'')
                   else if haveExecutable e ''yum'' then Some (UpdateFedoraLike ''yum'')
                   else u1)
         in Inr u2)
      else if GOOS e = ''darwin'' then
        (if \<not> appStore a \<and> \<not> IsSandboxedMacOS e
         then Inl (New (''The 'update' command is not yet supported on this platform; ''
                        @ ''see https://github.com/tailscale/tailscale/wiki/Tailscaled-on-macOS/ for now''))
         else if \<not> appStore a \<and> HasSuffix (Getenv e ''HOME'') ''/io.tailscale.ipn.macsys/Data''
         then Inr (Some UpdateMacSys)
         else Inr (Some UpdateMacAppStore))
      else Inr None)"

definition newUpdater :: "env \<Rightarrow> updateArgs \<Rightarrow> error + updater" where
  "newUpdater e a =
     (case (if track a = ''stable'' \<or> track a = ''unstable'' then Inr (track a)
            else if track a = [] then
              (if version a \<noteq> [] then
                 (case versionIsStable (version a) of
                    (isStable, ok) \<Rightarrow>
                      if \<not> ok then Inl (Errorf ''malformed version %q'' [Str (version a)])
                      else if isStable then Inr ''stable'' else Inr ''unstable'')
               else if IsUnstableBuild e then Inr ''unstable'' else Inr ''stable'')
            else Inl (Errorf (''unknown track %q; must be 'stable' or 'unstable'' @ [CHR 0x27])
                        [Str (track a)])) of
        Inl err \<Rightarrow> Inl err
      | Inr t \<Rightarrow>
          (case platformUpdate e a of
             Inl err \<Rightarrow> Inl err
           | Inr None \<Rightarrow>
               Inl (New (''The 'update' command is not supported on this platform; ''
                         @ ''see https://tailscale.com/s/client-updates''))
           | Inr (Some s) \<Rightarrow> Inr \<lparr>upTrack = t, update = s\<rparr>))"

subsection \<open>The parts the strategies share\<close>

definition currentOrDryRun :: "env \<Rightarrow> updateArgs \<Rightarrow> string \<Rightarrow> bool" where
  "currentOrDryRun e a ver = (if versionShort e = ver then True else if dryRun a then True else False)"

definition confirm :: "env \<Rightarrow> updateArgs \<Rightarrow> string \<Rightarrow> error option" where
  "confirm e a ver =
     (if yes a then None
      else (let resp = ToLower (Scanln e)
            in if resp = ''y'' \<or> resp = ''yes'' \<or> resp = ''sure'' then None
               else Some errUserAborted))"

definition requireRoot :: "env \<Rightarrow> error option" where
  "requireRoot e =
     (if Geteuid e = 0 then None
      else if GOOS e = ''linux'' then Some (New ''must be root; use sudo'')
      else if GOOS e = ''freebsd'' \<or> GOOS e = ''openbsd'' then Some (New ''must be root; use doas'')
      else Some (New ''must be root''))"

definition latestTailscaleVersion :: "env \<Rightarrow> string \<Rightarrow> error + string" where
  "latestTailscaleVersion e trk =
     (let url = ''https://pkgs.tailscale.com/'' @ trk @ ''/?mode=json&os='' @ GOOS e
      in case httpGetVersion e url of
           Inl err \<Rightarrow> Inl (Wrapf ''fetching latest tailscale version: %w'' [] (External err))
         | Inr (st, decoded) \<Rightarrow>
             (case decoded of
                Inl err \<Rightarrow> Inl (Wrapf ''decoding JSON: %v: %w'' [Str st] (External err))
              | Inr v \<Rightarrow> if v = [] then Inl (Errorf ''no version found at %q'' [Str url]) else Inr v))"

definition requestedTailscaleVersion :: "env \<Rightarrow> string \<Rightarrow> string \<Rightarrow> error + string" where
  "requestedTailscaleVersion e ver trk = (if ver \<noteq> [] then Inr ver else latestTailscaleVersion e trk)"

subsection \<open>The strategies\<close>

definition updateSynology :: "error option" where
  "updateSynology = Some (New (''The 'update' command is not yet implemented on Synology.''))"

definition updateMacSys :: "error option" where
  "updateMacSys = Some (New (''The 'update' command is not yet implemented on macOS.''))"

definition updateDebLike :: "env \<Rightarrow> updateArgs \<Rightarrow> updater \<Rightarrow> error option \<times> fsys" where
  \<comment> \<open>The result is the error and the file system the strategy leaves.\<close>
  "updateDebLike e a up =
     (let fs = fileSystem e
      in case requestedTailscaleVersion e (version a) (upTrack up) of
           Inl err \<Rightarrow> (Some err, fs)
         | Inr ver \<Rightarrow>
             if currentOrDryRun e a ver then (None, fs)
             else (case requireRoot e of
                     Some err \<Rightarrow> (Some err, fs)
                   | None \<Rightarrow>
                       (case updateDebianAptSourcesList fs (upTrack up) of
                          ((updated, Some err), fs') \<Rightarrow> (Some err, fs')
                        | ((updated, None), fs') \<Rightarrow>
                            (case snd (runCommand e 0
                                    [''apt-get'', ''update'',
                                     ''-o'', ''Dir::Etc::SourceList=sources.list.d/tailscale.list'',
                                     ''-o'', ''Dir::Etc::SourceParts=-'',
                                     ''-o'', ''APT::Get::List-Cleanup=0'']) of
                               Some err \<Rightarrow> (Some (External err), fs')
                             | None \<Rightarrow>
                                 (map_option External (snd (runCommand e 1
                                    [''apt-get'', ''install'', ''--yes'', ''--allow-downgrades'',
                                     ''tailscale='' @ ver])), fs')))))"

fun parsePacmanLines :: "string list \<Rightarrow> error + string" where
  \<comment> \<open>The loop of \<^verbatim>\<open>parsePacmanVersion\<close> over the lines of the output\<close>
  "parsePacmanLines [] =
     Inl (Errorf ''could not find latest version of tailscale via pacman'' [])"
| "parsePacmanLines (line # rest) =
     (if \<not> HasPrefix line ''Version'' then parsePacmanLines rest
      else (case Cut line CHR '':'' of
              None \<Rightarrow>
                Inl (Errorf
                  ''version output from pacman is malformed: %q, cannot determine upgrade version''
                  [Str line])
            | Some (_, after) \<Rightarrow>
                (let ver = (case Split (TrimSpace after) CHR ''-'' of [] \<Rightarrow> [] | v # _ \<Rightarrow> v)
                 in if ver = []
                    then Inl (Errorf
                      ''version output from pacman is malformed: %q, cannot determine upgrade version''
                      [Str line])
                    else Inr ver)))"

definition parsePacmanVersion :: "string \<Rightarrow> error + string" where
  "parsePacmanVersion out = parsePacmanLines (Split out LF)"

definition archRemediation :: "error option \<Rightarrow> error option" where
  \<comment> \<open>The deferred function of \<^verbatim>\<open>updateArchLike\<close>, applied to the named result
      \<^verbatim>\<open>err\<close>.\<close>
  "archRemediation err =
     (case err of
        None \<Rightarrow> None
      | Some e \<Rightarrow>
          if \<not> errorsIs e errUserAborted
          then Some (Wrapf (''%w; you can try updating using '' @ [CHR 0x22]
                            @ ''pacman --sync --refresh tailscale'' @ [CHR 0x22]) [] e)
          else Some e)"

definition updateArchLike_body :: "env \<Rightarrow> updateArgs \<Rightarrow> error option" where
  \<comment> \<open>\<^verbatim>\<open>updateArchLike\<close> after the \<^verbatim>\<open>defer\<close> statement: the value it returns, before
      the deferred function sees it.\<close>
  "updateArchLike_body e a =
     (case runCommand e 0 [''pacman'', ''--sync'', ''--refresh'', ''--info'', ''tailscale''] of
        (out, Some err) \<Rightarrow>
          Some (Wrapf ''failed checking pacman for latest tailscale version: %w, output: %q''
                  [Str out] (External err))
      | (out, None) \<Rightarrow>
          (case parsePacmanVersion out of
             Inl err \<Rightarrow> Some err
           | Inr ver \<Rightarrow>
               if currentOrDryRun e a ver then None
               else (case confirm e a ver of
                       Some err \<Rightarrow> Some err
                     | None \<Rightarrow>
                         (case snd (runCommand e 1
                                 [''pacman'', ''--sync'', ''--noconfirm'', ''tailscale'']) of
                            Some err \<Rightarrow>
                              Some (Wrapf ''failed tailscale update using pacman: %w'' []
                                      (External err))
                          | None \<Rightarrow> None))))"

definition updateArchLike :: "env \<Rightarrow> updateArgs \<Rightarrow> updater \<Rightarrow> error option \<times> fsys" where
  "updateArchLike e a up =
     (case requireRoot e of
        Some err \<Rightarrow> (Some err, fileSystem e)
      | None \<Rightarrow> (archRemediation (updateArchLike_body e a), fileSystem e))"

definition fedoraRemediation :: "string \<Rightarrow> error option \<Rightarrow> error option" where
  \<comment> \<open>The deferred function of \<^verbatim>\<open>updateFedoraLike\<close>\<close>
  "fedoraRemediation packageManager err =
     (case err of
        None \<Rightarrow> None
      | Some e \<Rightarrow>
          if \<not> errorsIs e errUserAborted
          then Some (Wrapf (''%w; you can try updating using '' @ [CHR 0x22]
                            @ ''%s upgrade tailscale'' @ [CHR 0x22]) [Str packageManager] e)
          else Some e)"

definition updateFedoraLike_body ::
    "env \<Rightarrow> updateArgs \<Rightarrow> string \<Rightarrow> updater \<Rightarrow> error option \<times> fsys" where
  \<comment> \<open>The function \<^verbatim>\<open>updateFedoraLike\<close> returns, after its \<^verbatim>\<open>defer\<close> statement.\<close>
  "updateFedoraLike_body e a packageManager up =
     (let fs = fileSystem e
      in case requestedTailscaleVersion e (version a) (upTrack up) of
           Inl err \<Rightarrow> (Some err, fs)
         | Inr ver \<Rightarrow>
             if currentOrDryRun e a ver then (None, fs)
             else (case confirm e a ver of
                     Some err \<Rightarrow> (Some err, fs)
                   | None \<Rightarrow>
                       (case updateYUMRepoTrack fs yumRepoConfigFile (upTrack up) of
                          ((updated, Some err), fs') \<Rightarrow> (Some err, fs')
                        | ((updated, None), fs') \<Rightarrow>
                            (map_option External (snd (runCommand e 0
                               [packageManager, ''install'', ''--assumeyes'',
                                ''tailscale-'' @ ver @ ''-1''])), fs'))))"

definition updateFedoraLike ::
    "env \<Rightarrow> updateArgs \<Rightarrow> string \<Rightarrow> updater \<Rightarrow> error option \<times> fsys" where
  "updateFedoraLike e a packageManager up =
     (case requireRoot e of
        Some err \<Rightarrow> (Some err, fileSystem e)
      | None \<Rightarrow>
          (let (err, fs') = updateFedoraLike_body e a packageManager up
           in (fedoraRemediation packageManager err, fs')))"

definition strategyName :: "strategy \<Rightarrow> string" where
  "strategyName s =
     (case s of
        UpdateWindows \<Rightarrow> ''updateWindows'' | UpdateSynology \<Rightarrow> ''updateSynology''
      | UpdateDebLike \<Rightarrow> ''updateDebLike'' | UpdateArchLike \<Rightarrow> ''updateArchLike''
      | UpdateFedoraLike _ \<Rightarrow> ''updateFedoraLike'' | UpdateMacSys \<Rightarrow> ''updateMacSys''
      | UpdateMacAppStore \<Rightarrow> ''updateMacAppStore'')"

definition callUpdate :: "env \<Rightarrow> updateArgs \<Rightarrow> updater \<Rightarrow> error option" where
  \<comment> \<open>The call \<^verbatim>\<open>up.update()\<close>. \<^verbatim>\<open>updateWindows\<close> and \<^verbatim>\<open>updateMacAppStore\<close> are
      left to the environment.\<close>
  "callUpdate e a up =
     (case update up of
        UpdateSynology \<Rightarrow> updateSynology
      | UpdateMacSys \<Rightarrow> updateMacSys
      | UpdateDebLike \<Rightarrow> fst (updateDebLike e a up)
      | UpdateArchLike \<Rightarrow> fst (updateArchLike e a up)
      | UpdateFedoraLike pm \<Rightarrow> fst (updateFedoraLike e a pm up)
      | s \<Rightarrow> otherStrategy e (strategyName s))"

subsection \<open>Installing the MSI package\<close>

definition winMSIEnv :: string where
  "winMSIEnv = ''TS_UPDATE_WIN_MSI''"

definition msiUUIDForVersion :: "env \<Rightarrow> string \<Rightarrow> string" where
  "msiUUIDForVersion e ver =
     (let arch = (if GOARCH e = ''386'' then ''x86'' else GOARCH e);
          trk = (case versionIsStable ver of
                   (isStable, ok) \<Rightarrow> if ok \<and> isStable then ''stable'' else ''unstable'');
          msiURL = ''https://pkgs.tailscale.com/'' @ trk @ ''/tailscale-setup-'' @ ver @ ''-''
                   @ arch @ ''.msi''
      in ''{'' @ ToUpper (uuidNewSHA1 e msiURL) @ ''}'')"

fun installMSI_tries ::
    "env \<Rightarrow> string \<Rightarrow> nat \<Rightarrow> nat \<Rightarrow> error option \<Rightarrow> error option \<times> string list list" where
  \<comment> \<open>The loop of \<^verbatim>\<open>installMSI\<close>, with the number of tries left, the number of
      commands run so far and the current value of \<^verbatim>\<open>err\<close>; the result is the final
      \<^verbatim>\<open>err\<close> and the command lines run (each in the directory \<^verbatim>\<open>filepath.Dir(msi)\<close>).\<close>
  "installMSI_tries e msi 0 k err = (err, [])"
| "installMSI_tries e msi (Suc left) k err =
     (let install = [''msiexec.exe'', ''/i'', filepathBase e msi, ''/quiet'', ''/promptrestart'', ''/qn''];
          err1 = snd (runCommand e k install)
      in if err1 = None then (None, [install])
         else (let uninstallVersion =
                     (if Getenv e ''TS_DEBUG_UNINSTALL_VERSION'' \<noteq> []
                      then Getenv e ''TS_DEBUG_UNINSTALL_VERSION'' else versionShort e);
                   uninstall = [''msiexec.exe'', ''/x'', msiUUIDForVersion e uninstallVersion,
                                ''/norestart'', ''/qn''];
                   err2 = map_option External (snd (runCommand e (k + 1) uninstall));
                   (res, cmds) = installMSI_tries e msi left (k + 2) err2
               in (res, install # uninstall # cmds)))"

definition installMSI :: "env \<Rightarrow> string \<Rightarrow> error option \<times> string list list" where
  "installMSI e msi = installMSI_tries e msi 2 0 None"

subsection \<open>The command\<close>

datatype call = InstallMSI "string list list" | NewUpdater | Update strategy

definition runUpdate :: "env \<Rightarrow> updateArgs \<Rightarrow> string list \<Rightarrow> error option \<times> call list" where
  \<comment> \<open>The result is the error returned and the calls made, in order: \<^verbatim>\<open>installMSI\<close>
      with the commands it ran, \<^verbatim>\<open>newUpdater\<close>, \<^verbatim>\<open>up.update\<close>. Whatever
      \<^verbatim>\<open>runUpdate\<close> does to the file system, the network or other processes, it does
      in these calls.\<close>
  "runUpdate e a args =
     (if Getenv e winMSIEnv \<noteq> []
      then (let (err, cmds) = installMSI e (Getenv e winMSIEnv) in (err, [InstallMSI cmds]))
      else if 0 < length args then (Some ErrHelp, [])
      else if version a \<noteq> [] \<and> track a \<noteq> []
      then (Some (New ''cannot specify both --version and --track''), [])
      else (case newUpdater e a of
              Inl err \<Rightarrow> (Some err, [NewUpdater])
            | Inr up \<Rightarrow> (callUpdate e a up, [NewUpdater, Update (update up)])))"

subsection \<open>Downloading and verifying the installer\<close>

definition readAllLimit :: "response \<Rightarrow> nat \<Rightarrow> string \<times> error option" where
  \<comment> \<open>\<^verbatim>\<open>io.ReadAll(io.LimitReader(res.Body, n))\<close>: at most \<open>n\<close> bytes, and the error of
      the body when it ends before that.\<close>
  "readAllLimit res n =
     (take n (Body res),
      if length (Body res) < n then map_option External (BodyErr res) else None)"

definition copyLimit :: "env \<Rightarrow> string \<Rightarrow> response \<Rightarrow> int \<Rightarrow> int \<times> string \<times> error option" where
  \<comment> \<open>\<^verbatim>\<open>io.Copy(io.MultiWriter(hash, of, pw), io.LimitReader(dlRes.Body, n))\<close>: the
      number of bytes copied, the bytes the hash has seen, and the error of the writer
      or of the body.\<close>
  "copyLimit e fileDst dlRes n =
     (let (data, rerr) = readAllLimit dlRes (nat n)
      in case writeError e fileDst of
           Some err \<Rightarrow> (0, [], Some (External err))
         | None \<Rightarrow> (int (length data), data, rerr))"

definition downloadURLToFile :: "env \<Rightarrow> string \<Rightarrow> string \<Rightarrow> error option" where
  "downloadURLToFile e urlSrc fileDst =
     (case httpDo e ''HEAD'' urlSrc of
        Inl err \<Rightarrow> Some (External err)
      | Inr res \<Rightarrow>
          if StatusCode res \<noteq> 200
          then Some (Errorf ''HEAD %s: %v'' [Str urlSrc, Str (Status res)])
          else if ContentLength res \<le> 0
          then Some (Errorf ''HEAD %s: unexpected Content-Length %v''
                       [Str urlSrc, Num (ContentLength res)])
          else
            (case httpDo e ''GET'' (urlSrc @ ''.sha256'') of
               Inl err \<Rightarrow> Some (External err)
             | Inr hashRes \<Rightarrow>
                 (let (hashHex, err) = readAllLimit hashRes 100
                  in if StatusCode res \<noteq> 200
                     then Some (Errorf ''GET %s.sha256: %v'' [Str urlSrc, Str (Status res)])
                     else if err \<noteq> None then err
                     else
                       (case DecodeString (TrimSpace hashHex) of
                          Inl err \<Rightarrow> Some err
                        | Inr wantHash \<Rightarrow>
                            (case httpDo e ''GET'' urlSrc of
                               Inl err \<Rightarrow> Some (External err)
                             | Inr dlRes \<Rightarrow>
                                 if StatusCode dlRes \<noteq> 200
                                 then Some (Errorf ''GET %s: %v'' [Str urlSrc, Str (Status dlRes)])
                                 else if \<not> writable (fileSystem e) fileDst
                                 then Some (External ''open: permission denied'')
                                 else
                                   (let (n, data, err) = copyLimit e fileDst dlRes (ContentLength res)
                                    in if err \<noteq> None then err
                                       else if n \<noteq> ContentLength res
                                       then Some (Errorf ''downloaded %v; want %v''
                                                    [Num n, Num (ContentLength res)])
                                       else if closeError e fileDst \<noteq> None
                                       then map_option External (closeError e fileDst)
                                       else if sha256 e data \<noteq> wantHash
                                       then Some (Errorf
                                              ''SHA-256 of downloaded MSI didn't match expected value'' [])
                                       else None))))))"

subsection \<open>Example environments\<close>

definition debianWithPacman :: env where
  \<comment> \<open>A Debian system on which \<^verbatim>\<open>pacman\<close> is installed as well, run by root; the operator
      answers \<^verbatim>\<open>n\<close>.\<close>
  "debianWithPacman =
     \<lparr>GOOS = ''linux'', GOARCH = ''amd64'', distroGet = Debian,
      LookPath = (\<lambda>name. if name = ''pacman'' then Some ''/usr/bin/pacman'' else None),
      IsUnstableBuild = False, IsSandboxedMacOS = False, versionShort = ''1.44.0'',
      Getenv = (\<lambda>name. []), Geteuid = 0, Scanln = ''n'',
      runCommand = (\<lambda>k argv. (''Version         : 1.46.1-1'', None)),
      httpGetVersion = (\<lambda>url. Inr (''200 OK'', Inr ''1.46.1'')),
      httpDo = (\<lambda>method url. Inl ''connection refused''),
      sha256 = (\<lambda>data. []), uuidNewSHA1 = (\<lambda>data. []), filepathBase = (\<lambda>path. path),
      fileSystem = \<lparr>files = (\<lambda>name. None), writable = (\<lambda>name. False)\<rparr>,
      writeError = (\<lambda>name. None), closeError = (\<lambda>name. None),
      otherStrategy = (\<lambda>name. None)\<rparr>"

definition msiHandoff :: env where
  \<comment> \<open>The same process environment with the variable \<^verbatim>\<open>TS_UPDATE_WIN_MSI\<close> set.\<close>
  "msiHandoff =
     debianWithPacman
       \<lparr>GOOS := ''windows'',
        Getenv := (\<lambda>name. if name = ''TS_UPDATE_WIN_MSI'' then ''tailscale-setup-1.45.3-amd64.msi'' else [])\<rparr>"

definition bothGiven :: updateArgs where
  \<comment> \<open>\<^verbatim>\<open>tailscale update --version=1.45.3 --track=stable\<close>\<close>
  "bothGiven = \<lparr>yes = False, dryRun = False, appStore = False, track = ''stable'', version = ''1.45.3''\<rparr>"

definition noFlags :: updateArgs where
  \<comment> \<open>\<^verbatim>\<open>tailscale update\<close>\<close>
  "noFlags = \<lparr>yes = False, dryRun = False, appStore = False, track = [], version = []\<rparr>"


definition msiURL :: string where
  "msiURL = ''https://pkgs.tailscale.com/stable/tailscale-setup-1.46.1-amd64.msi''"

definition msiFile :: string where
  "msiFile = ''tailscale-setup-1.46.1-amd64.msi''"

definition announced :: response where
  \<comment> \<open>The answer to a \<^verbatim>\<open>HEAD\<close> request: three bytes are announced.\<close>
  "announced = \<lparr>StatusCode = 200, Status = ''200 OK'', ContentLength = 3, Body = [], BodyErr = None\<rparr>"

definition served :: "nat \<Rightarrow> string \<Rightarrow> response" where
  \<comment> \<open>The answer to a \<^verbatim>\<open>GET\<close> request with the given status code and body.\<close>
  "served code body =
     \<lparr>StatusCode = code, Status = (if code = 200 then ''200 OK'' else ''404 Not Found''),
      ContentLength = int (length body), Body = body, BodyErr = None\<rparr>"

definition msiServer :: "nat \<Rightarrow> string \<Rightarrow> string \<Rightarrow> string \<Rightarrow> string \<Rightarrow> string + response" where
  \<comment> \<open>A server that answers every \<^verbatim>\<open>HEAD\<close> request with \<open>announced\<close>, a request for a
      checksum with the given status code and body, and every other request with the
      given artifact.\<close>
  "msiServer code checksum artifact method url =
     (if method = ''HEAD'' then Inr announced
      else if HasSuffix url ''.sha256'' then Inr (served code checksum)
      else Inr (served 200 artifact))"

definition msiDownload :: "nat \<Rightarrow> string \<Rightarrow> string \<Rightarrow> env" where
  \<comment> \<open>A Windows system talking to \<open>msiServer\<close>, with a digest oracle that gives the bytes
      \<^verbatim>\<open>ab cd\<close> for the content \<^verbatim>\<open>MSI\<close> and \<^verbatim>\<open>00 00\<close> for any other.\<close>
  "msiDownload code checksum artifact =
     debianWithPacman
       \<lparr>GOOS := ''windows'',
        httpDo := msiServer code checksum artifact,
        sha256 := (\<lambda>data. if data = ''MSI'' then [CHR 0xAB, CHR 0xCD] else [CHR 0x00, CHR 0x00]),
        fileSystem := \<lparr>files = (\<lambda>name. None), writable = (\<lambda>name. True)\<rparr>\<rparr>"

definition verifiedDownload :: env where
  "verifiedDownload = msiDownload 200 ''abcd\<newline>'' ''MSI''"

definition truncatedDownload :: env where
  "truncatedDownload = msiDownload 200 ''abcd\<newline>'' ''MS''"

definition tamperedDownload :: env where
  "tamperedDownload = msiDownload 200 ''abcd\<newline>'' ''MSX''"


section \<open>Properties\<close>

subsection \<open>Library lemmas\<close>

lemma Cut_append: "c \<notin> set a \<Longrightarrow> Cut (a @ c # b) c = Some (a, b)"
  by (induction a) auto

lemma Cut_SomeD: "Cut s c = Some (a, b) \<Longrightarrow> s = a @ c # b \<and> c \<notin> set a"
proof (induction s arbitrary: a)
  case Nil
  then show ?case by simp
next
  case (Cons x xs)
  show ?case
  proof (cases "x = c")
    case True
    with Cons.prems show ?thesis by simp
  next
    case False
    with Cons.prems obtain a' where "Cut xs c = Some (a', b)" "a = x # a'"
      by (auto split: option.splits)
    with Cons.IH False show ?thesis by auto
  qed
qed

lemma Cut_None_iff: "Cut s c = None \<longleftrightarrow> c \<notin> set s"
  by (induction s) (auto split: option.splits)

lemma goRem_2_even: "goRem n 2 = 0 \<longleftrightarrow> even n"
proof -
  have a: "\<bar>n\<bar> mod 2 = 0 \<longleftrightarrow> even n" by presburger
  have "goRem n 2 = 0 \<longleftrightarrow> n = 0 \<or> \<bar>n\<bar> mod 2 = 0"
    by (simp add: goRem_def sgn_if)
  with a show ?thesis by auto
qed

lemma parseDigits_Some_iff:
  "parseDigits n ds = Some r \<longleftrightarrow>
     (\<forall>c\<in>set ds. isDigit c) \<and> r = foldl (\<lambda>n c. n * 10 + digitVal c) n ds"
  by (induction ds arbitrary: n) auto

text \<open>
  What \<open>Atoi\<close> accepts: an optional sign followed by one or more decimal digits whose
  value fits a 64-bit \<^verbatim>\<open>int\<close>.
\<close>

lemma Atoi_SomeD:
  assumes "Atoi s = Some v"
  shows "\<exists>ds. ds \<noteq> [] \<and> (\<forall>c\<in>set ds. isDigit c) \<and>
           ((s = ds \<or> s = CHR ''+'' # ds) \<and> v = int (foldl (\<lambda>n c. n * 10 + digitVal c) 0 ds)
            \<or> s = CHR ''-'' # ds \<and> v = - int (foldl (\<lambda>n c. n * 10 + digitVal c) 0 ds)) \<and>
           - (2 ^ 63) \<le> v \<and> v < 2 ^ 63"
proof -
  define ds where "ds = (if s \<noteq> [] \<and> (hd s = CHR ''-'' \<or> hd s = CHR ''+'') then tl s else s)"
  from assms have ne: "ds \<noteq> []"
    by (auto simp: Atoi_def ds_def Let_def split: if_splits)
  from assms ne obtain n where n: "parseDigits 0 ds = Some n"
    by (auto simp: Atoi_def ds_def Let_def split: if_splits option.splits)
  from assms ne n have v: "v = (if s \<noteq> [] \<and> hd s = CHR ''-'' then - int n else int n)"
    and r: "- (2 ^ 63) \<le> v \<and> v < 2 ^ 63"
    by (auto simp: Atoi_def ds_def Let_def intSize_def split: if_splits)
  from n have dig: "\<forall>c\<in>set ds. isDigit c" and nv: "n = foldl (\<lambda>n c. n * 10 + digitVal c) 0 ds"
    by (simp_all add: parseDigits_Some_iff)
  have nosign: "\<not> isDigit CHR ''-''" "\<not> isDigit CHR ''+''"
    by (simp_all add: isDigit_def)
  show ?thesis
  proof (cases "s \<noteq> [] \<and> (hd s = CHR ''-'' \<or> hd s = CHR ''+'')")
    case True
    then have "s = hd s # ds" by (simp add: ds_def)
    with True ne dig nv v r show ?thesis by (intro exI [of _ ds]) auto
  next
    case False
    then have "s = ds" by (auto simp: ds_def)
    with False ne dig nv v r show ?thesis by (intro exI [of _ ds]) auto
  qed
qed

subsection \<open>Prefixes\<close>

lemma HasPrefix_Nil [simp]: "HasPrefix s []"
  by (simp add: HasPrefix_def)

lemma HasPrefix_Nil_Cons [simp]: "\<not> HasPrefix [] (d # ds)"
  by (simp add: HasPrefix_def)

lemma HasPrefix_Cons [simp]: "HasPrefix (c # cs) (d # ds) \<longleftrightarrow> c = d \<and> HasPrefix cs ds"
  by (auto simp: HasPrefix_def)

lemma HasPrefix_append [simp]: "HasPrefix (p @ r) p"
  by (simp add: HasPrefix_def)

lemma HasPrefixD: "HasPrefix s p \<Longrightarrow> s = p @ drop (length p) s"
  by (metis HasPrefix_def append_take_drop_id)

subsection \<open>The line scanner\<close>

lemma set_dropCR: "set (dropCR l) \<subseteq> set l"
  by (auto simp: dropCR_def dest: in_set_butlastD)

lemma length_dropCR: "length (dropCR l) \<le> length l"
  by (simp add: dropCR_def)

lemma dropCR_id: "l = [] \<or> last l \<noteq> CR \<Longrightarrow> dropCR l = l"
  by (auto simp: dropCR_def)

lemma scanFrom_tokens:
  "l \<in> set (scanFrom acc data) \<Longrightarrow> LF \<notin> set acc \<Longrightarrow> LF \<notin> set l \<and> length l < maxScanTokenSize"
proof (induction data arbitrary: acc)
  case Nil
  then show ?case
    using set_dropCR [of acc] length_dropCR [of acc] by (auto split: if_splits)
next
  case (Cons c cs)
  show ?case
  proof (cases "c = LF")
    case True
    with Cons.prems have "l = dropCR acc \<and> length acc < maxScanTokenSize \<or> l \<in> set (scanFrom [] cs)"
      by (auto split: if_splits)
    then show ?thesis
      using Cons.IH [of "[]"] Cons.prems(2) set_dropCR [of acc] length_dropCR [of acc] by auto
  next
    case False
    with Cons.prems have "l \<in> set (scanFrom (acc @ [c]) cs)" by simp
    with Cons.IH [of "acc @ [c]"] Cons.prems(2) False show ?thesis by auto
  qed
qed

lemma scanLines_tokens:
  "l \<in> set (scanLines data) \<Longrightarrow> LF \<notin> set l \<and> length l < maxScanTokenSize"
  unfolding scanLines_def using scanFrom_tokens [of l "[]" data] by simp

lemma scanFrom_line:
  "LF \<notin> set l \<Longrightarrow>
   scanFrom acc (l @ LF # rest) =
     (if maxScanTokenSize \<le> length (acc @ l) then [] else dropCR (acc @ l) # scanFrom [] rest)"
  by (induction l arbitrary: acc) auto

lemma scanLines_unlines:
  "\<forall>l\<in>set ls. LF \<notin> set l \<and> length l < maxScanTokenSize \<Longrightarrow>
   scanLines (concat (map (\<lambda>l. l @ [LF]) ls)) = map dropCR ls"
proof (induction ls)
  case Nil
  then show ?case by (simp add: scanLines_def)
next
  case (Cons l ls)
  then have "scanFrom [] (l @ LF # concat (map (\<lambda>l. l @ [LF]) ls))
             = dropCR l # scanFrom [] (concat (map (\<lambda>l. l @ [LF]) ls))"
    by (simp add: scanFrom_line)
  with Cons show ?case by (simp add: scanLines_def)
qed

subsection \<open>The loop of the yum rewriter\<close>

lemma yumLines_Inr_iff:
  "yumLines rf t ls nc = Inr out \<longleftrightarrow>
     (\<exists>ws. list_all2 (\<lambda>l w. yumLine rf t l = Inr w) ls ws \<and> out = nc @ concat ws)"
proof (induction ls arbitrary: nc)
  case Nil
  then show ?case by auto
next
  case (Cons l ls)
  show ?case
  proof (cases "yumLine rf t l")
    case (Inl e)
    then show ?thesis by (auto simp: list_all2_Cons1)
  next
    case (Inr w)
    then show ?thesis using Cons.IH [of "nc @ w"] by (auto simp: list_all2_Cons1)
  qed
qed

lemma yumLine_name:
  "HasPrefix l ''name='' \<Longrightarrow> yumLine rf t l = Inr (''name=Tailscale '' @ t @ [LF])"
  by (cases l) (auto simp: yumLine_def)


lemmas yum_defs = yumNewContent_def yumLine_def scanLines_def maxScanTokenSize_def dropCR_def
  HasPrefix_def urlRe_ReplaceAllString_def urlRe_match_def extractTemplate_def isWordChar_def
  isDigit_def digitVal_def

lemma expand_track_template:
  "t \<in> {''stable'', ''unstable''} \<Longrightarrow>
   expand (''$1=https://pkgs.tailscale.com/'' @ t @ ''/'') [Some a, Some k, g]
   = k @ ''=https://pkgs.tailscale.com/'' @ t @ ''/''"
  by (auto simp: extractTemplate_def isWordChar_def isDigit_def digitVal_def)

lemma urlRe_match_track:
  "key \<in> {''baseurl'', ''gpgkey''} \<Longrightarrow> u \<in> {''stable'', ''unstable''} \<Longrightarrow>
   \<exists>g. urlRe_match (key @ ''=https://pkgs.tailscale.com/'' @ u @ ''/'' @ rest)
     = Some (length (key @ ''=https://pkgs.tailscale.com/'' @ u @ ''/''),
             [Some (key @ ''=https://pkgs.tailscale.com/'' @ u @ ''/''), Some key, g])"
  by (auto simp: urlRe_match_def)

lemma urlRe_match_SomeD:
  assumes "urlRe_match l = Some (n, caps)"
  shows "\<exists>key u rest. key \<in> {''baseurl'', ''gpgkey''} \<and> u \<in> {''stable'', ''unstable''} \<and>
           l = key @ ''=https://pkgs.tailscale.com/'' @ u @ ''/'' @ rest \<and>
           n = length (key @ ''=https://pkgs.tailscale.com/'' @ u @ ''/'')"
proof -
  define key where "key = (if HasPrefix l ''baseurl'' then ''baseurl'' else ''gpgkey'')"
  from assms have key: "key \<in> {''baseurl'', ''gpgkey''}" "HasPrefix l key"
    by (auto simp: urlRe_match_def key_def split: if_splits)
  define r where "r = drop (length key) l"
  from key(2) have l: "l = key @ r" unfolding r_def by (rule HasPrefixD)
  from assms have "\<exists>u \<in> {''stable'', ''unstable''}.
       HasPrefix r (''=https://pkgs.tailscale.com/'' @ u @ ''/'') \<and>
       n = length (key @ ''=https://pkgs.tailscale.com/'' @ u @ ''/'')"
    by (auto simp: urlRe_match_def r_def key_def Let_def split: if_splits)
  then obtain u where u: "u \<in> {''stable'', ''unstable''}"
    "HasPrefix r (''=https://pkgs.tailscale.com/'' @ u @ ''/'')"
    "n = length (key @ ''=https://pkgs.tailscale.com/'' @ u @ ''/'')"
    by blast
  from HasPrefixD [OF u(2)] obtain rest where
    "r = (''=https://pkgs.tailscale.com/'' @ u @ ''/'') @ rest" by blast
  with l key u show ?thesis by (intro exI [of _ key] exI [of _ u] exI [of _ rest]) simp
qed

lemma drop_length_append: "drop (length p) (p @ r) = r"
  by simp

lemma urlRe_replace_cases:
  assumes t: "t \<in> {''stable'', ''unstable''}"
  shows "urlRe_ReplaceAllString l (''$1=https://pkgs.tailscale.com/'' @ t @ ''/'') = l \<or>
         (\<exists>key u rest. key \<in> {''baseurl'', ''gpgkey''} \<and> u \<in> {''stable'', ''unstable''} \<and>
            l = key @ ''=https://pkgs.tailscale.com/'' @ u @ ''/'' @ rest \<and>
            urlRe_ReplaceAllString l (''$1=https://pkgs.tailscale.com/'' @ t @ ''/'')
              = key @ ''=https://pkgs.tailscale.com/'' @ t @ ''/'' @ rest)"
proof (cases "urlRe_match l")
  case None
  then show ?thesis by (simp add: urlRe_ReplaceAllString_def)
next
  case (Some m)
  obtain n caps where m: "m = (n, caps)" by (cases m)
  from urlRe_match_SomeD [OF Some [unfolded m]] obtain key u rest where
    k: "key \<in> {''baseurl'', ''gpgkey''}" and u: "u \<in> {''stable'', ''unstable''}" and
    l: "l = key @ ''=https://pkgs.tailscale.com/'' @ u @ ''/'' @ rest" and
    n: "n = length (key @ ''=https://pkgs.tailscale.com/'' @ u @ ''/'')"
    by blast
  from urlRe_match_track [OF k u, of rest] Some m l obtain g where
    caps: "caps = [Some (key @ ''=https://pkgs.tailscale.com/'' @ u @ ''/''), Some key, g]"
    by auto
  have l': "l = (key @ ''=https://pkgs.tailscale.com/'' @ u @ ''/'') @ rest"
    by (simp only: l append_assoc)
  have d: "drop n l = rest"
    unfolding n by (subst l') (rule drop_length_append)
  have "urlRe_ReplaceAllString l (''$1=https://pkgs.tailscale.com/'' @ t @ ''/'')
        = expand (''$1=https://pkgs.tailscale.com/'' @ t @ ''/'') caps @ drop n l"
    by (simp only: urlRe_ReplaceAllString_def Some m option.case prod.case)
  also have "expand (''$1=https://pkgs.tailscale.com/'' @ t @ ''/'') caps
             = key @ ''=https://pkgs.tailscale.com/'' @ t @ ''/''"
    unfolding caps by (rule expand_track_template [OF t])
  finally have "urlRe_ReplaceAllString l (''$1=https://pkgs.tailscale.com/'' @ t @ ''/'')
        = key @ ''=https://pkgs.tailscale.com/'' @ t @ ''/'' @ rest"
    by (simp only: d append_assoc)
  with k u l show ?thesis by blast
qed

lemma urlRe_replace_fix:
  assumes "key \<in> {''baseurl'', ''gpgkey''}" "t \<in> {''stable'', ''unstable''}"
  shows "urlRe_ReplaceAllString (key @ ''=https://pkgs.tailscale.com/'' @ t @ ''/'' @ rest)
           (''$1=https://pkgs.tailscale.com/'' @ t @ ''/'')
         = key @ ''=https://pkgs.tailscale.com/'' @ t @ ''/'' @ rest"
proof -
  from urlRe_match_track [OF assms, of rest] obtain g where
    m: "urlRe_match (key @ ''=https://pkgs.tailscale.com/'' @ t @ ''/'' @ rest)
     = Some (length (key @ ''=https://pkgs.tailscale.com/'' @ t @ ''/''),
             [Some (key @ ''=https://pkgs.tailscale.com/'' @ t @ ''/''), Some key, g])"
    by blast
  have d: "drop (length (key @ ''=https://pkgs.tailscale.com/'' @ t @ ''/''))
             (key @ ''=https://pkgs.tailscale.com/'' @ t @ ''/'' @ rest) = rest"
    using drop_length_append [of "key @ ''=https://pkgs.tailscale.com/'' @ t @ ''/''" rest]
    by (simp only: append_assoc)
  show ?thesis
    by (simp only: urlRe_ReplaceAllString_def m option.case prod.case
          expand_track_template [OF assms(2)] d append_assoc)
qed

lemma yumLine_section:
  "0 < length l \<Longrightarrow> hd l = CHR ''['' \<Longrightarrow> HasPrefix l ''[tailscale-'' \<Longrightarrow>
   yumLine rf t l = Inr (''[tailscale-'' @ t @ '']'' @ [LF])"
  by (simp add: yumLine_def)

lemma yumLine_url:
  "\<not> (0 < length l \<and> hd l = CHR ''['') \<Longrightarrow> \<not> HasPrefix l ''name='' \<Longrightarrow>
   HasPrefix l ''baseurl='' \<or> HasPrefix l ''gpgkey='' \<Longrightarrow>
   yumLine rf t l
   = Inr (urlRe_ReplaceAllString l (''$1=https://pkgs.tailscale.com/'' @ t @ ''/'') @ [LF])"
  by (auto simp: yumLine_def)

lemma yumLine_other:
  "\<not> (0 < length l \<and> hd l = CHR ''['') \<Longrightarrow> \<not> HasPrefix l ''name='' \<Longrightarrow>
   \<not> (HasPrefix l ''baseurl='' \<or> HasPrefix l ''gpgkey='') \<Longrightarrow>
   yumLine rf t l = Inr (l @ [LF])"
  by (auto simp: yumLine_def)

lemma yumLine_again:
  assumes t: "t \<in> {''stable'', ''unstable''}" and w: "yumLine rf t l = Inr w"
    and nl: "LF \<notin> set l"
  shows "\<exists>w'. w = w' @ [LF] \<and> LF \<notin> set w' \<and> length w' \<le> max 23 (length l + 2) \<and>
               (l = [] \<or> last l \<noteq> CR \<longrightarrow> w' = [] \<or> last w' \<noteq> CR) \<and>
               yumLine rf t w' = Inr w"
proof -
  consider (hdr) "0 < length l" "hd l = CHR ''[''"
    | (name) "\<not> (0 < length l \<and> hd l = CHR ''['')" "HasPrefix l ''name=''"
    | (url) "\<not> (0 < length l \<and> hd l = CHR ''['')" "\<not> HasPrefix l ''name=''"
        "HasPrefix l ''baseurl='' \<or> HasPrefix l ''gpgkey=''"
    | (other) "\<not> (0 < length l \<and> hd l = CHR ''['')" "\<not> HasPrefix l ''name=''"
        "\<not> (HasPrefix l ''baseurl='' \<or> HasPrefix l ''gpgkey='')"
    by blast
  then show ?thesis
  proof cases
    case hdr
    with w have p: "HasPrefix l ''[tailscale-''"
      by (auto simp: yumLine_def split: if_splits)
    with hdr w have w1: "w = (''[tailscale-'' @ t @ '']'') @ [LF]"
      by (simp add: yumLine_section)
    have "yumLine rf t (''[tailscale-'' @ t @ '']'') = Inr w"
      unfolding w1 by (simp add: yumLine_def)
    with w1 t show ?thesis
      by (intro exI [of _ "''[tailscale-'' @ t @ '']''"]) auto
  next
    case name
    with w have w1: "w = (''name=Tailscale '' @ t) @ [LF]"
      by (simp add: yumLine_name)
    have "yumLine rf t (''name=Tailscale '' @ t) = Inr w"
      unfolding w1 by (simp add: yumLine_def)
    with w1 t show ?thesis
      by (intro exI [of _ "''name=Tailscale '' @ t"]) auto
  next
    case url
    define T where "T = ''$1=https://pkgs.tailscale.com/'' @ t @ ''/''"
    define w' where "w' = urlRe_ReplaceAllString l T"
    from url w have w1: "w = w' @ [LF]"
      by (simp add: yumLine_url w'_def T_def)
    from urlRe_replace_cases [OF t, of l, folded T_def w'_def]
    consider (same) "w' = l"
      | (repl) key u rest where "key \<in> {''baseurl'', ''gpgkey''}" "u \<in> {''stable'', ''unstable''}"
          "l = key @ ''=https://pkgs.tailscale.com/'' @ u @ ''/'' @ rest"
          "w' = key @ ''=https://pkgs.tailscale.com/'' @ t @ ''/'' @ rest"
      by blast
    then show ?thesis
    proof cases
      case same
      with w w1 nl show ?thesis by (intro exI [of _ l]) auto
    next
      case repl
      have c1: "\<not> (0 < length w' \<and> hd w' = CHR ''['')" "\<not> HasPrefix w' ''name=''"
        "HasPrefix w' ''baseurl='' \<or> HasPrefix w' ''gpgkey=''"
        using repl(1) unfolding repl(4) by auto
      have fx: "urlRe_ReplaceAllString w' T = w'"
        unfolding repl(4) T_def by (rule urlRe_replace_fix [OF repl(1) t])
      have "yumLine rf t w' = Inr (urlRe_ReplaceAllString w' T @ [LF])"
        unfolding T_def by (rule yumLine_url [OF c1])
      with fx w1 have again: "yumLine rf t w' = Inr w" by simp
      from nl t repl have nl': "LF \<notin> set w'" by auto
      from t repl have len: "length w' \<le> length l + 2" by auto
      have lastw: "l = [] \<or> last l \<noteq> CR \<longrightarrow> w' = [] \<or> last w' \<noteq> CR"
        using repl(3,4) by (cases "rest = []") auto
      from w1 again nl' len lastw show ?thesis by (intro exI [of _ w']) auto
    qed
  next
    case other
    with w have "w = l @ [LF]" by (simp add: yumLine_other)
    with w nl show ?thesis by (intro exI [of _ l]) auto
  qed
qed

lemma yum_rewrite_idempotent:
  assumes t: "dstTrack \<in> {''stable'', ''unstable''}"
    and lines: "\<forall>l\<in>set (scanLines was). length l + 2 < maxScanTokenSize \<and> (l = [] \<or> last l \<noteq> CR)"
    and ok: "yumNewContent repoFile dstTrack was = Inr newContent"
  shows "yumNewContent repoFile dstTrack newContent = Inr newContent"
proof -
  let ?Y = "yumLine repoFile dstTrack"
  from ok obtain ws where
    ws: "list_all2 (\<lambda>l w. ?Y l = Inr w) (scanLines was) ws"
    and out: "newContent = concat ws"
    by (auto simp: yumNewContent_def yumLines_Inr_iff)
  have P: "w = butlast w @ [LF] \<and> LF \<notin> set (butlast w) \<and> length (butlast w) < maxScanTokenSize \<and>
           (butlast w = [] \<or> last (butlast w) \<noteq> CR) \<and> ?Y (butlast w) = Inr w"
    if "w \<in> set ws" for w
  proof -
    from that obtain i where i: "i < length ws" "w = ws ! i"
      by (auto simp: in_set_conv_nth)
    define l where "l = scanLines was ! i"
    from ws i have len: "i < length (scanLines was)"
      by (simp add: list_all2_lengthD)
    then have lin: "l \<in> set (scanLines was)" by (simp add: l_def)
    from ws i len have y: "?Y l = Inr w"
      using list_all2_nthD2 [of _ "scanLines was" ws i] by (simp add: l_def)
    from scanLines_tokens [OF lin] have nl: "LF \<notin> set l" by simp
    from lines lin have ll: "length l + 2 < maxScanTokenSize" "l = [] \<or> last l \<noteq> CR"
      by auto
    from yumLine_again [OF t y nl] obtain w' where
      w': "w = w' @ [LF]" "LF \<notin> set w'" "length w' \<le> max 23 (length l + 2)"
      "l = [] \<or> last l \<noteq> CR \<longrightarrow> w' = [] \<or> last w' \<noteq> CR" "?Y w' = Inr w"
      by blast
    from w'(3) ll(1) have "length w' < maxScanTokenSize"
      by (auto simp: maxScanTokenSize_def)
    with w' ll(2) show ?thesis by simp
  qed
  define ws' where "ws' = map butlast ws"
  have ws_eq: "map (\<lambda>w'. w' @ [LF]) ws' = ws"
    unfolding ws'_def using P by (simp add: map_idI)
  have "\<forall>l\<in>set ws'. LF \<notin> set l \<and> length l < maxScanTokenSize"
    unfolding ws'_def using P by auto
  from scanLines_unlines [OF this] have "scanLines (concat ws) = map dropCR ws'"
    by (simp only: ws_eq)
  also have "map dropCR ws' = ws'"
    unfolding ws'_def using P by (intro map_idI) (auto simp: dropCR_id)
  finally have sc: "scanLines newContent = ws'" by (simp add: out)
  have "list_all2 (\<lambda>l w. ?Y l = Inr w) ws' ws"
    unfolding ws'_def using P by (simp add: list_all2_map1 list_all2_same)
  then have "yumLines repoFile dstTrack ws' [] = Inr (concat ws)"
    by (auto simp: yumLines_Inr_iff)
  with sc out show ?thesis by (simp add: yumNewContent_def)
qed

subsection \<open>The replacement of the track in a line of the apt sources list\<close>

lemma matchPkgsURL_SomeD:
  assumes "matchPkgsURL s = Some m"
  shows "m \<in> {''https://pkgs.tailscale.com/stable/'', ''https://pkgs.tailscale.com/unstable/''}"
    and "s = m @ drop (length m) s"
  using assms HasPrefixD [of s m] by (auto simp: matchPkgsURL_def split: if_splits)

lemma matchPkgsURL_append:
  "m \<in> {''https://pkgs.tailscale.com/stable/'', ''https://pkgs.tailscale.com/unstable/''} \<Longrightarrow>
   matchPkgsURL (m @ r) = Some m"
  by (auto simp: matchPkgsURL_def)

lemma pkgsURL_induct [case_names Nil NoMatch Match]:
  assumes nil: "\<And>w. P w []"
    and nomatch: "\<And>w c cs. (if w then None else matchPkgsURL (c # cs)) = None \<Longrightarrow>
                   P (isWordChar c) cs \<Longrightarrow> P w (c # cs)"
    and match: "\<And>w c cs m r. \<not> w \<Longrightarrow> matchPkgsURL (c # cs) = Some m \<Longrightarrow>
                   m \<in> {''https://pkgs.tailscale.com/stable/'', ''https://pkgs.tailscale.com/unstable/''} \<Longrightarrow>
                   c # cs = m @ r \<Longrightarrow> P False r \<Longrightarrow> P w (c # cs)"
  shows "P w s"
proof (induction "length s" arbitrary: s w rule: less_induct)
  case less
  show ?case
  proof (cases s)
    case Nil
    then show ?thesis by (simp add: nil)
  next
    case (Cons c cs)
    show ?thesis
    proof (cases "if w then None else matchPkgsURL (c # cs)")
      case None
      with less [of cs] Cons show ?thesis by (simp add: nomatch)
    next
      case (Some m)
      then have w: "\<not> w" and m: "matchPkgsURL (c # cs) = Some m"
        by (auto split: if_splits)
      note d = matchPkgsURL_SomeD [OF m]
      from d(1) have "m \<noteq> []" by auto
      with d(2) have "length (drop (length m) (c # cs)) < length s"
        unfolding Cons by (metis diff_less length_drop length_greater_0_conv list.distinct(1))
      from less [OF this] match [OF w m d(1) d(2)] Cons show ?thesis by simp
    qed
  qed
qed

lemma match_last_not_word:
  "m \<in> {''https://pkgs.tailscale.com/stable/'', ''https://pkgs.tailscale.com/unstable/''} \<Longrightarrow>
   \<not> isWordChar (last m)"
  by (auto simp: isWordChar_def)

lemma pkgsURL_state:
  "pkgsURL_ReplaceAllFunc p w s st
   = (replaced p w s, (fst st + changed p w s, snd st \<or> correct p w s))"
proof (induction w s arbitrary: st rule: pkgsURL_induct)
  case (Nil w)
  then show ?case by (simp add: replaced_def changed_def correct_def)
next
  case (NoMatch w c cs)
  have a: "pkgsURL_ReplaceAllFunc p w (c # cs) st' =
        (c # fst (pkgsURL_ReplaceAllFunc p (isWordChar c) cs st'),
         snd (pkgsURL_ReplaceAllFunc p (isWordChar c) cs st'))" for st'
    using NoMatch(1) by (simp add: case_prod_unfold Let_def)
  have b: "replaced p w (c # cs) = c # replaced p (isWordChar c) cs"
    "changed p w (c # cs) = changed p (isWordChar c) cs"
    "correct p w (c # cs) = correct p (isWordChar c) cs"
    unfolding replaced_def changed_def correct_def a by simp_all
  show ?case unfolding a b NoMatch(2) by simp
next
  case (Match w c cs m r)
  from Match(4) have dr: "drop (length m) (c # cs) = r" by simp
  have a: "pkgsURL_ReplaceAllFunc p w (c # cs) st' =
        (p @ fst (pkgsURL_ReplaceAllFunc p False r (snd (replFunc p m st'))),
         snd (pkgsURL_ReplaceAllFunc p False r (snd (replFunc p m st'))))" for st'
    using Match(1,2) match_last_not_word [OF Match(3)] dr
    by (simp add: case_prod_unfold replFunc_def Let_def)
  have b: "replaced p w (c # cs) = p @ replaced p False r"
    "changed p w (c # cs) = fst (snd (replFunc p m (0, False))) + changed p False r"
    "correct p w (c # cs) = (snd (snd (replFunc p m (0, False))) \<or> correct p False r)"
    unfolding replaced_def [of p w] changed_def [of p w] correct_def [of p w] a Match(5)
    by simp_all
  show ?case unfolding a b Match(5) by (simp add: replFunc_def)
qed

lemma replaced_Nil [simp]: "replaced p w [] = []"
  and changed_Nil [simp]: "changed p w [] = 0"
  and correct_Nil [simp]: "\<not> correct p w []"
  by (simp_all add: replaced_def changed_def correct_def)

lemma stats_NoMatch:
  assumes "(if w then None else matchPkgsURL (c # cs)) = None"
  shows "replaced p w (c # cs) = c # replaced p (isWordChar c) cs"
    and "changed p w (c # cs) = changed p (isWordChar c) cs"
    and "correct p w (c # cs) = correct p (isWordChar c) cs"
  using assms by (simp_all add: replaced_def changed_def correct_def case_prod_unfold Let_def)

lemma stats_Match:
  assumes "\<not> w" "matchPkgsURL (c # cs) = Some m" "c # cs = m @ r"
  shows "replaced p w (c # cs) = p @ replaced p False r"
    and "changed p w (c # cs) = (if m = p then 0 else 1) + changed p False r"
    and "correct p w (c # cs) = (m = p \<or> correct p False r)"
proof -
  from matchPkgsURL_SomeD(1) [OF assms(2)] have nw: "\<not> isWordChar (last m)"
    by (rule match_last_not_word)
  from assms(3) have dr: "drop (length m) (c # cs) = r" by simp
  have "pkgsURL_ReplaceAllFunc p w (c # cs) (0, False) =
        (p @ replaced p False r,
         (fst (snd (replFunc p m (0, False))) + changed p False r,
          snd (snd (replFunc p m (0, False))) \<or> correct p False r))"
    using assms(1,2) nw dr pkgsURL_state [of p False r "snd (replFunc p m (0, False))"]
    by (simp add: case_prod_unfold replFunc_def Let_def)
  then show "replaced p w (c # cs) = p @ replaced p False r"
    and "changed p w (c # cs) = (if m = p then 0 else 1) + changed p False r"
    and "correct p w (c # cs) = (m = p \<or> correct p False r)"
    by (simp_all add: replaced_def changed_def correct_def replFunc_def)
qed

lemma replaced_unchanged: "changed p w s = 0 \<Longrightarrow> replaced p w s = s"
proof (induction w s rule: pkgsURL_induct)
  case (Nil w)
  show ?case by simp
next
  case (NoMatch w c cs)
  then show ?case by (simp add: stats_NoMatch)
next
  case (Match w c cs m r)
  from Match(6) have "m = p" "changed p False r = 0"
    by (auto simp: stats_Match [OF Match(1,2,4)] split: if_splits)
  with Match(4,5) show ?case
    unfolding stats_Match(1) [OF Match(1,2,4)] by simp
qed

lemma set_replaced: "set (replaced p w s) \<subseteq> set s \<union> set p"
proof (induction w s rule: pkgsURL_induct)
  case (Nil w)
  show ?case by simp
next
  case (NoMatch w c cs)
  then show ?case by (auto simp: stats_NoMatch)
next
  case (Match w c cs m r)
  have "set r \<subseteq> set (c # cs)" unfolding Match(4) by simp
  with Match(5) show ?case
    by (auto simp: stats_Match [OF Match(1,2,4)])
qed

lemma length_replaced:
  "p \<in> pkgsURLs \<Longrightarrow> length (replaced p w s) \<le> length s + 2 * changed p w s"
proof (induction w s rule: pkgsURL_induct)
  case (Nil w)
  show ?case by simp
next
  case (NoMatch w c cs)
  then show ?case by (simp add: stats_NoMatch)
next
  case (Match w c cs m r)
  have "length (c # cs) = length m + length r" unfolding Match(4) by simp
  with Match(3,5,6) show ?case
    by (auto simp: stats_Match [OF Match(1,2,4)])
qed

lemma commentLine_Cons:
  "commentLine (c # s) = (if isRegexpSpace c then commentLine s else c = CHR ''#'')"
  by (simp add: commentLine_def)

lemma commentLine_Nil [simp]: "\<not> commentLine []"
  by (simp add: commentLine_def)

lemma commentLine_dropCR: "commentLine (dropCR x) = commentLine x"
proof (induction x)
  case Nil
  show ?case by (simp add: dropCR_def)
next
  case (Cons c s)
  show ?case
  proof (cases "s = []")
    case True
    then show ?thesis by (auto simp: dropCR_def commentLine_Cons isRegexpSpace_def)
  next
    case False
    then have "dropCR (c # s) = c # dropCR s" by (simp add: dropCR_def)
    with Cons show ?thesis by (simp add: commentLine_Cons)
  qed
qed

lemma commentLine_replaced:
  "p \<in> pkgsURLs \<Longrightarrow> commentLine (replaced p w s) = commentLine s"
proof (induction w s rule: pkgsURL_induct)
  case (Nil w)
  show ?case by simp
next
  case (NoMatch w c cs)
  then show ?case by (simp add: stats_NoMatch commentLine_Cons)
next
  case (Match w c cs m r)
  from Match(3) have "\<not> commentLine (m @ r)"
    by (auto simp: commentLine_Cons isRegexpSpace_def)
  then have 1: "\<not> commentLine (c # cs)" unfolding Match(4) .
  from Match(6) have "\<not> commentLine (p @ replaced p False r)"
    by (auto simp: commentLine_Cons isRegexpSpace_def)
  then have 2: "\<not> commentLine (replaced p w (c # cs))"
    unfolding stats_Match(1) [OF Match(1,2,4)] .
  from 1 2 show ?case by simp
qed

lemma stats_Match':
  assumes "\<not> w" "matchPkgsURL s = Some m" "s = m @ r"
  shows "replaced p w s = p @ replaced p False r"
    and "changed p w s = (if m = p then 0 else 1) + changed p False r"
    and "correct p w s = (m = p \<or> correct p False r)"
proof -
  from matchPkgsURL_SomeD(1) [OF assms(2)] assms(3) obtain c cs where s: "s = c # cs"
    by (cases s) auto
  from assms show "replaced p w s = p @ replaced p False r"
    and "changed p w s = (if m = p then 0 else 1) + changed p False r"
    and "correct p w s = (m = p \<or> correct p False r)"
    unfolding s by (rule stats_Match)+
qed

lemma pkgsURL_hd:
  "m \<in> pkgsURLs \<Longrightarrow> m = CHR ''h'' # tl m \<and> CHR ''h'' \<notin> set (tl m) \<and> CR \<notin> set m \<and> LF \<notin> set m"
  by auto

lemma matchPkgsURL_NoneD:
  "matchPkgsURL s = None \<Longrightarrow> m \<in> pkgsURLs \<Longrightarrow> \<not> HasPrefix s m"
  by (auto simp: matchPkgsURL_def split: if_splits)

lemma replaced_prefix:
  "p \<in> pkgsURLs \<Longrightarrow> HasPrefix (replaced p w s) u \<Longrightarrow> CHR ''h'' \<notin> set u \<Longrightarrow> HasPrefix s u"
proof (induction w s arbitrary: u rule: pkgsURL_induct)
  case (Nil w)
  then show ?case by (cases u) auto
next
  case (NoMatch w c cs)
  then show ?case by (cases u) (auto simp: stats_NoMatch)
next
  case (Match w c cs m r)
  from Match(6) obtain p' where "p = CHR ''h'' # p'" by auto
  with Match(7,8) show ?case
    unfolding stats_Match(1) [OF Match(1,2,4)] by (cases u) auto
qed

lemma rescan_NoMatch:
  assumes p: "p \<in> pkgsURLs"
    and nm: "(if w then None else matchPkgsURL (c # cs)) = None"
  shows "(if w then None else matchPkgsURL (c # replaced p (isWordChar c) cs)) = None"
proof (cases w)
  case True
  then show ?thesis by simp
next
  case False
  with nm have none: "matchPkgsURL (c # cs) = None" by simp
  have "matchPkgsURL (c # replaced p (isWordChar c) cs) = None"
  proof (rule ccontr)
    assume "matchPkgsURL (c # replaced p (isWordChar c) cs) \<noteq> None"
    then obtain m where m: "matchPkgsURL (c # replaced p (isWordChar c) cs) = Some m"
      by blast
    note d = matchPkgsURL_SomeD [OF m]
    from pkgsURL_hd [OF d(1)] obtain m' where m': "m = CHR ''h'' # m'" "CHR ''h'' \<notin> set m'"
      by blast
    from d(2) have "HasPrefix (c # replaced p (isWordChar c) cs) m"
      by (metis HasPrefix_append)
    with m' have c: "c = CHR ''h''" and "HasPrefix (replaced p (isWordChar c) cs) m'"
      by auto
    from replaced_prefix [OF p this(2) m'(2)] c m' have "HasPrefix (c # cs) m" by simp
    with matchPkgsURL_NoneD [OF none d(1)] show False by simp
  qed
  with False show ?thesis by simp
qed

lemma rescan:
  "p \<in> pkgsURLs \<Longrightarrow>
   replaced p w (replaced p w s) = replaced p w s \<and>
   changed p w (replaced p w s) = 0 \<and>
   correct p w (replaced p w s) = (0 < changed p w s \<or> correct p w s)"
proof (induction w s rule: pkgsURL_induct)
  case (Nil w)
  show ?case by simp
next
  case (NoMatch w c cs)
  note nm' = rescan_NoMatch [OF NoMatch(3) NoMatch(1)]
  show ?case
    unfolding stats_NoMatch [OF NoMatch(1)] stats_NoMatch [OF nm']
    using NoMatch(2) [OF NoMatch(3)] by simp
next
  case (Match w c cs m r)
  have mp: "matchPkgsURL (p @ replaced p False r) = Some p"
    using Match(6) by (rule matchPkgsURL_append)
  show ?case
    unfolding stats_Match [OF Match(1,2,4)] stats_Match' [OF Match(1) mp refl]
    using Match(5) [OF Match(6)] by auto
qed

lemma HasPrefix_snoc_CR:
  assumes "m \<in> pkgsURLs"
  shows "HasPrefix (s @ [CR]) m \<longleftrightarrow> HasPrefix s m"
proof
  assume a: "HasPrefix (s @ [CR]) m"
  show "HasPrefix s m"
  proof (cases "length m \<le> length s")
    case True
    with a show ?thesis by (simp add: HasPrefix_def)
  next
    case False
    with a have "m = s @ [CR]" by (simp add: HasPrefix_def)
    with pkgsURL_hd [OF assms] show ?thesis by simp
  qed
next
  assume "HasPrefix s m"
  then have "s = m @ drop (length m) s" by (rule HasPrefixD)
  then have "s @ [CR] = m @ (drop (length m) s @ [CR])" by simp
  then show "HasPrefix (s @ [CR]) m" by (metis HasPrefix_append)
qed

lemma matchPkgsURL_snoc_CR: "matchPkgsURL (s @ [CR]) = matchPkgsURL s"
  by (simp add: matchPkgsURL_def HasPrefix_snoc_CR)

lemma stats_snoc_CR:
  "replaced p w (s @ [CR]) = replaced p w s @ [CR] \<and>
   changed p w (s @ [CR]) = changed p w s \<and>
   correct p w (s @ [CR]) = correct p w s"
proof (induction w s rule: pkgsURL_induct)
  case (Nil w)
  have "(if w then None else matchPkgsURL [CR]) = None"
    by (simp add: matchPkgsURL_def)
  from stats_NoMatch [OF this] show ?case by simp
next
  case (NoMatch w c cs)
  have "(if w then None else matchPkgsURL (c # (cs @ [CR]))) = None"
    using NoMatch(1) matchPkgsURL_snoc_CR [of "c # cs"] by (auto split: if_splits)
  from stats_NoMatch [OF this] stats_NoMatch [OF NoMatch(1)] NoMatch(2)
  show ?case by simp
next
  case (Match w c cs m r)
  have m': "matchPkgsURL ((c # cs) @ [CR]) = Some m"
    using Match(2) by (simp only: matchPkgsURL_snoc_CR)
  have e: "(c # cs) @ [CR] = m @ (r @ [CR])"
    by (simp only: Match(4) append_assoc)
  from stats_Match' [OF Match(1) m' e] stats_Match [OF Match(1,2,4)] Match(5)
  show ?case by simp
qed

lemma rescan_dropCR:
  assumes p: "p \<in> pkgsURLs"
  shows "replaced p w (dropCR (replaced p w s)) = dropCR (replaced p w s) \<and>
         changed p w (dropCR (replaced p w s)) = 0 \<and>
         correct p w (dropCR (replaced p w s)) = (0 < changed p w s \<or> correct p w s)"
proof (cases "replaced p w s \<noteq> [] \<and> last (replaced p w s) = CR")
  case False
  then have "dropCR (replaced p w s) = replaced p w s" by (auto simp: dropCR_def)
  with rescan [OF p, of w s] show ?thesis by simp
next
  case True
  define y where "y = butlast (replaced p w s)"
  from True have x: "replaced p w s = y @ [CR]"
    unfolding y_def by (metis append_butlast_last_id)
  from True have d: "dropCR (replaced p w s) = y" by (simp add: dropCR_def y_def)
  have "dropCR (y @ [CR]) = y" by (simp add: dropCR_def)
  with rescan [OF p, of w s] stats_snoc_CR [of p w y] show ?thesis
    unfolding x by simp
qed

lemma aptLine_eq:
  "aptLine p (buf, (n, h)) l
   = (buf @ lineOut p l @ [LF], (n + lineChanges p l, h \<or> lineCorrect p l))"
  by (simp add: aptLine_def lineOut_def lineChanges_def lineCorrect_def
        pkgsURL_state [of p False l "(n, h)"])

lemma foldl_aptLine:
  "foldl (aptLine p) (buf, (n, h)) ls
   = (buf @ concat (map (\<lambda>l. lineOut p l @ [LF]) ls),
      (n + sum_list (map (lineChanges p) ls), h \<or> (\<exists>l\<in>set ls. lineCorrect p l)))"
  by (induction ls arbitrary: buf n h) (auto simp: aptLine_eq)

lemma aptScan_eq:
  "aptScan was t
   = (concat (map (\<lambda>l. lineOut (trackURLPrefix t) l @ [LF]) (scanLines was)),
      (sum_list (map (lineChanges (trackURLPrefix t)) (scanLines was)),
       \<exists>l\<in>set (scanLines was). lineCorrect (trackURLPrefix t) l))"
  unfolding aptScan_def foldl_aptLine by simp

lemma line_rescan:
  assumes p: "p \<in> pkgsURLs"
  shows "lineOut p (dropCR (lineOut p l)) = dropCR (lineOut p l)"
    and "lineChanges p (dropCR (lineOut p l)) = 0"
    and "lineCorrect p (dropCR (lineOut p l)) = (0 < lineChanges p l \<or> lineCorrect p l)"
  using rescan_dropCR [OF p, of False l] commentLine_replaced [OF p, of False l]
  by (auto simp: lineOut_def lineChanges_def lineCorrect_def commentLine_dropCR)

lemma lineOut_props:
  assumes p: "p \<in> pkgsURLs"
  shows "LF \<notin> set l \<Longrightarrow> LF \<notin> set (lineOut p l)"
    and "length (lineOut p l) \<le> length l + 2 * lineChanges p l"
    and "lineChanges p l = 0 \<Longrightarrow> lineOut p l = l"
  using set_replaced [of p False l] length_replaced [OF p, of False l] pkgsURL_hd [OF p]
    replaced_unchanged [of p False l]
  by (auto simp: lineOut_def lineChanges_def)

lemma track_URL: "t \<in> {''stable'', ''unstable''} \<Longrightarrow> trackURLPrefix t \<in> pkgsURLs"
  by (auto simp: trackURLPrefix_def)

lemma apt_result_cases:
  assumes "aptScan was t = (buf, n, h)"
  shows "updateDebianAptSourcesListBytes was t =
         (if h \<or> (n = 1 \<and> TrimSpace was = TrimSpace buf) then Inr was
          else if n \<noteq> 1 then Inl (Errorf ''unexpected/unsupported %s contents'' [Str aptSourcesFile])
          else Inr buf)"
  using assms by (simp add: updateDebianAptSourcesListBytes_def)








subsection \<open>A second application of the apt rewriter\<close>

lemma apt_rewritten_scan:
  assumes t: "dstTrack \<in> {''stable'', ''unstable''}"
    and lines: "\<forall>l\<in>set (scanLines was). length l + 2 < maxScanTokenSize"
    and ok: "updateDebianAptSourcesListBytes was dstTrack = Inr newContent"
    and ne: "newContent \<noteq> was"
  shows "scanLines newContent
         = map (\<lambda>l. dropCR (lineOut (trackURLPrefix dstTrack) l)) (scanLines was)"
    and "\<exists>l\<in>set (scanLines was). 0 < lineChanges (trackURLPrefix dstTrack) l"
proof -
  define p where "p = trackURLPrefix dstTrack"
  from t have p: "p \<in> pkgsURLs" unfolding p_def by (rule track_URL)
  define ls where "ls = scanLines was"
  define buf where "buf = concat (map (\<lambda>l. lineOut p l @ [LF]) ls)"
  define n where "n = sum_list (map (lineChanges p) ls)"
  define h where "h = (\<exists>l\<in>set ls. lineCorrect p l)"
  have scan: "aptScan was dstTrack = (buf, n, h)"
    unfolding aptScan_eq buf_def n_def h_def ls_def p_def ..
  from ok ne apt_result_cases [OF scan] have n1: "n = 1" and out: "newContent = buf"
    by (auto split: if_splits)
  have le1: "lineChanges p l \<le> 1" if "l \<in> set ls" for l
    using member_le_sum_list [of "lineChanges p l" "map (lineChanges p) ls"] that n1
    by (simp add: n_def)
  have "\<exists>l\<in>set ls. lineChanges p l \<noteq> 0"
  proof (rule ccontr)
    assume "\<not> (\<exists>l\<in>set ls. lineChanges p l \<noteq> 0)"
    then have "sum_list (map (lineChanges p) ls) = 0" by simp
    with n1 show False by (simp add: n_def)
  qed
  then show "\<exists>l\<in>set (scanLines was). 0 < lineChanges (trackURLPrefix dstTrack) l"
    by (auto simp: ls_def p_def)
  have tok: "LF \<notin> set (lineOut p l) \<and> length (lineOut p l) < maxScanTokenSize"
    if "l \<in> set ls" for l
  proof -
    from that scanLines_tokens [of l was] have "LF \<notin> set l" by (simp add: ls_def)
    moreover from that lines have "length l + 2 < maxScanTokenSize" by (simp add: ls_def)
    ultimately show ?thesis
      using lineOut_props(1,2) [OF p, of l] le1 [OF that] by auto
  qed
  have b: "buf = concat (map (\<lambda>l. l @ [LF]) (map (lineOut p) ls))"
    by (simp add: buf_def comp_def)
  have "\<forall>l\<in>set (map (lineOut p) ls). LF \<notin> set l \<and> length l < maxScanTokenSize"
    using tok by auto
  from scanLines_unlines [OF this] have "scanLines buf = map dropCR (map (lineOut p) ls)"
    unfolding b .
  then show "scanLines newContent
         = map (\<lambda>l. dropCR (lineOut (trackURLPrefix dstTrack) l)) (scanLines was)"
    by (simp add: out ls_def p_def comp_def)
qed

lemma apt_rewrite_idempotent:
  assumes t: "dstTrack \<in> {''stable'', ''unstable''}"
    and lines: "\<forall>l\<in>set (scanLines was). length l + 2 < maxScanTokenSize"
    and ok: "updateDebianAptSourcesListBytes was dstTrack = Inr newContent"
  shows "updateDebianAptSourcesListBytes newContent dstTrack = Inr newContent"
proof (cases "newContent = was")
  case True
  with ok show ?thesis by simp
next
  case False
  note s = apt_rewritten_scan [OF t lines ok False]
  from s(2) obtain l0 where l0: "l0 \<in> set (scanLines was)"
    "0 < lineChanges (trackURLPrefix dstTrack) l0" by blast
  have "\<exists>l\<in>set (scanLines newContent). lineCorrect (trackURLPrefix dstTrack) l"
    unfolding s(1) using l0 line_rescan(3) [OF track_URL [OF t], of l0] by auto
  with aptScan_eq [of newContent dstTrack] obtain buf' n' where
    "aptScan newContent dstTrack = (buf', n', True)"
    by simp
  from apt_result_cases [OF this] show ?thesis by simp
qed






lemma updateDebianAptSourcesList_twice:
  assumes t: "dstTrack \<in> {''stable'', ''unstable''}"
    and was: "files fs aptSourcesFile = Some was"
    and lines: "\<forall>l\<in>set (scanLines was). length l + 2 < maxScanTokenSize"
    and ok: "updateDebianAptSourcesList fs dstTrack = ((rewrote, None), fs')"
  shows "updateDebianAptSourcesList fs' dstTrack = ((False, None), fs')"
proof -
  from was have rd: "ReadFile fs aptSourcesFile = Inr was" by (simp add: ReadFile_def)
  with ok obtain new where new: "updateDebianAptSourcesListBytes was dstTrack = Inr new"
    by (cases "updateDebianAptSourcesListBytes was dstTrack")
       (auto simp: updateDebianAptSourcesList_def)
  note again = apt_rewrite_idempotent [OF t lines new]
  show ?thesis
  proof (cases "was = new")
    case True
    with ok rd new have "fs' = fs" by (simp add: updateDebianAptSourcesList_def)
    with ok rd new True show ?thesis by (simp add: updateDebianAptSourcesList_def)
  next
    case False
    with ok rd new have "fs' = fs\<lparr>files := (files fs)(aptSourcesFile \<mapsto> new)\<rparr>"
      by (auto simp: updateDebianAptSourcesList_def WriteFile_def split: if_splits)
    then have "ReadFile fs' aptSourcesFile = Inr new" by (simp add: ReadFile_def)
    with again show ?thesis by (simp add: updateDebianAptSourcesList_def)
  qed
qed

lemma updateYUMRepoTrack_twice:
  assumes t: "dstTrack \<in> {''stable'', ''unstable''}"
    and was: "files fs repoFile = Some was"
    and lines: "\<forall>l\<in>set (scanLines was). length l + 2 < maxScanTokenSize \<and> (l = [] \<or> last l \<noteq> CR)"
    and ok: "updateYUMRepoTrack fs repoFile dstTrack = ((rewrote, None), fs')"
  shows "updateYUMRepoTrack fs' repoFile dstTrack = ((False, None), fs')"
proof -
  from was have rd: "ReadFile fs repoFile = Inr was" by (simp add: ReadFile_def)
  with ok obtain new where new: "yumNewContent repoFile dstTrack was = Inr new"
    by (cases "yumNewContent repoFile dstTrack was") (auto simp: updateYUMRepoTrack_def)
  note again = yum_rewrite_idempotent [OF t lines new]
  show ?thesis
  proof (cases "was = new")
    case True
    with ok rd new have "fs' = fs" by (simp add: updateYUMRepoTrack_def)
    with ok rd new True show ?thesis by (simp add: updateYUMRepoTrack_def)
  next
    case False
    with ok rd new have "fs' = fs\<lparr>files := (files fs)(repoFile \<mapsto> new)\<rparr>"
      by (auto simp: updateYUMRepoTrack_def WriteFile_def split: if_splits)
    then have "ReadFile fs' repoFile = Inr new" by (simp add: ReadFile_def)
    with again show ?thesis by (simp add: updateYUMRepoTrack_def)
  qed
qed


subsection \<open>Track inference\<close>

text \<open>
  C3 (as amended). A version string is well formed exactly when it has at least two dots
  and the text between the first and the second dot is accepted by \<^verbatim>\<open>strconv.Atoi\<close>;
  its track is then stable when that number is even and unstable when it is odd. Every
  other string is reported malformed, with \<open>stable = false\<close>. The six versions the
  specification lists are classified as it says.
\<close>

theorem versionIsStable_rule:
  "(versionIsStable v = (isStable, True) \<longleftrightarrow>
      (\<exists>major minorStr rest minor.
         v = major @ CHR ''.'' # minorStr @ CHR ''.'' # rest \<and>
         CHR ''.'' \<notin> set major \<and> CHR ''.'' \<notin> set minorStr \<and>
         Atoi minorStr = Some minor \<and> (isStable \<longleftrightarrow> even minor))) \<and>
   versionIsStable v \<noteq> (True, False) \<and>
   versionIsStable ''1.44.0'' = (True, True) \<and>
   versionIsStable ''1.46.2'' = (True, True) \<and>
   versionIsStable ''1.45.3'' = (False, True) \<and>
   versionIsStable ''1.47.1'' = (False, True) \<and>
   versionIsStable ''1'' = (False, False) \<and>
   versionIsStable ''abc.def'' = (False, False)"
proof -
  let ?R = "\<exists>major minorStr rest minor.
         v = major @ CHR ''.'' # minorStr @ CHR ''.'' # rest \<and>
         CHR ''.'' \<notin> set major \<and> CHR ''.'' \<notin> set minorStr \<and>
         Atoi minorStr = Some minor \<and> (isStable \<longleftrightarrow> even minor)"
  have "versionIsStable v = (isStable, True) \<longleftrightarrow> ?R" (is "?L \<longleftrightarrow> _")
  proof
    assume l: ?L
    then obtain major r where c1: "Cut v CHR ''.'' = Some (major, r)"
      by (auto simp: versionIsStable_def split: option.splits)
    with l obtain minorStr rest where c2: "Cut r CHR ''.'' = Some (minorStr, rest)"
      by (auto simp: versionIsStable_def split: option.splits)
    with c1 l obtain minor where a: "Atoi minorStr = Some minor"
      and s: "isStable \<longleftrightarrow> goRem minor 2 = 0"
      by (auto simp: versionIsStable_def split: option.splits)
    from Cut_SomeD [OF c1] Cut_SomeD [OF c2]
    have "v = major @ CHR ''.'' # minorStr @ CHR ''.'' # rest"
      "CHR ''.'' \<notin> set major" "CHR ''.'' \<notin> set minorStr"
      by simp_all
    with a s show ?R by (auto simp: goRem_2_even)
  next
    assume ?R
    then obtain major minorStr rest minor where
      v: "v = major @ CHR ''.'' # minorStr @ CHR ''.'' # rest" and
      d: "CHR ''.'' \<notin> set major" "CHR ''.'' \<notin> set minorStr" and
      a: "Atoi minorStr = Some minor" and s: "isStable \<longleftrightarrow> even minor"
      by blast
    from d have "versionIsStable v =
        (case Atoi minorStr of None \<Rightarrow> (False, False)
         | Some minor \<Rightarrow> (goRem minor 2 = 0, True))"
      unfolding versionIsStable_def v by (simp add: Cut_append)
    with a s show ?L by (simp add: goRem_2_even)
  qed
  moreover have "versionIsStable v \<noteq> (True, False)"
    by (auto simp: versionIsStable_def split: option.splits)
  moreover have "versionIsStable ''1.44.0'' = (True, True)"
    "versionIsStable ''1.46.2'' = (True, True)"
    "versionIsStable ''1.45.3'' = (False, True)"
    "versionIsStable ''1.47.1'' = (False, True)"
    "versionIsStable ''1'' = (False, False)"
    "versionIsStable ''abc.def'' = (False, False)"
    by (simp_all add: versionIsStable_def Atoi_def isDigit_def digitVal_def intSize_def goRem_def)
  ultimately show ?thesis by blast
qed

theorem versionIsStable_rule_witness:
  "\<exists>major minorStr rest minor.
     ''1.45.3'' = major @ CHR ''.'' # minorStr @ CHR ''.'' # rest \<and>
     CHR ''.'' \<notin> set major \<and> CHR ''.'' \<notin> set minorStr \<and>
     Atoi minorStr = Some minor \<and> odd minor"
proof -
  have "versionIsStable ''1.45.3'' = (False, True)"
    by (simp add: versionIsStable_def Atoi_def isDigit_def digitVal_def intSize_def goRem_def)
  with versionIsStable_rule [of "''1.45.3''" False] show ?thesis by simp
qed

text \<open>
  The version \<^verbatim>\<open>1.44\<close> has two dot-separated components and its second one is the
  even number 44, yet it is reported malformed: there is no second dot.
\<close>

theorem versionIsStable_two_components_counterexample:
  "Cut ''1.44'' CHR ''.'' = Some (''1'', ''44'') \<and> Atoi ''44'' = Some 44 \<and>
   versionIsStable ''1.44'' = (False, False)"
  by (simp add: versionIsStable_def Atoi_def isDigit_def digitVal_def intSize_def)

subsection \<open>Evaluation on concrete files\<close>

lemmas trim_defs = TrimSpace_def TrimLeftSpace.simps TrimRightSpace.simps leadingSpace_def
  trailingSpace_def spaceRunes_def HasPrefix_def HasSuffix_def

lemmas scan_defs = aptScan_def trackURLPrefix_def scanLines_def maxScanTokenSize_def dropCR_def
  aptLine_def commentLine_def isRegexpSpace_def matchPkgsURL_def HasPrefix_def isWordChar_def
  replFunc_def

lemma apt_eval_stable_to_unstable:
  "updateDebianAptSourcesListBytes
     ''deb https://pkgs.tailscale.com/stable/ tailscale main\<newline>'' ''unstable''
   = Inr ''deb https://pkgs.tailscale.com/unstable/ tailscale main\<newline>''"
proof -
  have c1: "aptScan ''deb https://pkgs.tailscale.com/stable/ tailscale main\<newline>'' ''unstable''
    = (''deb https://pkgs.tailscale.com/unstable/ tailscale main\<newline>'', (1, False))"
    by (simp add: scan_defs)
  have ts1: "TrimSpace ''deb https://pkgs.tailscale.com/stable/ tailscale main\<newline>''
    = ''deb https://pkgs.tailscale.com/stable/ tailscale main''"
    by (simp add: trim_defs)
  have ts2: "TrimSpace ''deb https://pkgs.tailscale.com/unstable/ tailscale main\<newline>''
    = ''deb https://pkgs.tailscale.com/unstable/ tailscale main''"
    by (simp add: trim_defs)
  show ?thesis
    by (simp add: updateDebianAptSourcesListBytes_def c1 ts1 ts2)
qed

lemma scanLines_eval_apt_stable:
  "scanLines ''deb https://pkgs.tailscale.com/stable/ tailscale main\<newline>''
   = [''deb https://pkgs.tailscale.com/stable/ tailscale main'']"
  by (simp add: scanLines_def maxScanTokenSize_def dropCR_def)

lemma yum_eval_stable_to_unstable:
  "yumNewContent ''/etc/yum.repos.d/tailscale.repo'' ''unstable''
     ''[tailscale-stable]\<newline>name=Tailscale stable\<newline>baseurl=https://pkgs.tailscale.com/stable/fedora\<newline>''
   = Inr ''[tailscale-unstable]\<newline>name=Tailscale unstable\<newline>baseurl=https://pkgs.tailscale.com/unstable/fedora\<newline>''"
  by (simp add: yum_defs)

lemma scanLines_eval_yum_stable:
  "scanLines ''[tailscale-stable]\<newline>name=Tailscale stable\<newline>baseurl=https://pkgs.tailscale.com/stable/fedora\<newline>''
   = [''[tailscale-stable]'', ''name=Tailscale stable'', ''baseurl=https://pkgs.tailscale.com/stable/fedora'']"
  by (simp add: scanLines_def maxScanTokenSize_def dropCR_def)


lemma apt_eval_unstable_again:
  "updateDebianAptSourcesListBytes
     ''deb https://pkgs.tailscale.com/unstable/ tailscale main\<newline>'' ''unstable''
   = Inr ''deb https://pkgs.tailscale.com/unstable/ tailscale main\<newline>''"
proof -
  have c2: "aptScan ''deb https://pkgs.tailscale.com/unstable/ tailscale main\<newline>'' ''unstable''
    = (''deb https://pkgs.tailscale.com/unstable/ tailscale main\<newline>'', (0, True))"
    by (simp add: scan_defs)
  show ?thesis
    by (simp add: updateDebianAptSourcesListBytes_def c2)
qed









subsection \<open>Idempotence of the rewriters\<close>

text \<open>
  C1 (as amended). Let the target track be \<^verbatim>\<open>stable\<close> or \<^verbatim>\<open>unstable\<close>. For the apt
  rewriter and every content whose scanned lines are shorter than 65534 bytes, the
  content a successful application returns is returned unchanged by a second
  application. For the rewriting core of the yum variant and every content whose
  scanned lines are shorter than 65534 bytes and do not end in a carriage return (after
  the scanner has removed one), the content a successful rewrite produces is reproduced
  byte for byte by a second rewrite.
\<close>

theorem rewriters_idempotent:
  assumes "dstTrack \<in> {''stable'', ''unstable''}"
  shows "((\<forall>l\<in>set (scanLines was). length l + 2 < maxScanTokenSize) \<and>
          updateDebianAptSourcesListBytes was dstTrack = Inr newContent
          \<longrightarrow> updateDebianAptSourcesListBytes newContent dstTrack = Inr newContent) \<and>
         ((\<forall>l\<in>set (scanLines was). length l + 2 < maxScanTokenSize \<and> (l = [] \<or> last l \<noteq> CR)) \<and>
          yumNewContent repoFile dstTrack was = Inr newContent
          \<longrightarrow> yumNewContent repoFile dstTrack newContent = Inr newContent)"
  using apt_rewrite_idempotent [OF assms, of was newContent]
    yum_rewrite_idempotent [OF assms, of was repoFile newContent]
  by blast

theorem rewriters_idempotent_witness:
  "updateDebianAptSourcesListBytes
     ''deb https://pkgs.tailscale.com/stable/ tailscale main\<newline>'' ''unstable''
   = Inr ''deb https://pkgs.tailscale.com/unstable/ tailscale main\<newline>'' \<and>
   updateDebianAptSourcesListBytes
     ''deb https://pkgs.tailscale.com/unstable/ tailscale main\<newline>'' ''unstable''
   = Inr ''deb https://pkgs.tailscale.com/unstable/ tailscale main\<newline>'' \<and>
   yumNewContent ''/etc/yum.repos.d/tailscale.repo'' ''unstable''
     ''[tailscale-stable]\<newline>name=Tailscale stable\<newline>baseurl=https://pkgs.tailscale.com/stable/fedora\<newline>''
   = Inr ''[tailscale-unstable]\<newline>name=Tailscale unstable\<newline>baseurl=https://pkgs.tailscale.com/unstable/fedora\<newline>'' \<and>
   yumNewContent ''/etc/yum.repos.d/tailscale.repo'' ''unstable''
     ''[tailscale-unstable]\<newline>name=Tailscale unstable\<newline>baseurl=https://pkgs.tailscale.com/unstable/fedora\<newline>''
   = Inr ''[tailscale-unstable]\<newline>name=Tailscale unstable\<newline>baseurl=https://pkgs.tailscale.com/unstable/fedora\<newline>''"
proof -
  have t: "''unstable'' \<in> {''stable'', ''unstable''}" by simp
  have la: "\<forall>l\<in>set (scanLines ''deb https://pkgs.tailscale.com/stable/ tailscale main\<newline>'').
              length l + 2 < maxScanTokenSize"
    unfolding scanLines_eval_apt_stable by (simp add: maxScanTokenSize_def)
  have ly: "\<forall>l\<in>set (scanLines ''[tailscale-stable]\<newline>name=Tailscale stable\<newline>baseurl=https://pkgs.tailscale.com/stable/fedora\<newline>'').
              length l + 2 < maxScanTokenSize \<and> (l = [] \<or> last l \<noteq> CR)"
    unfolding scanLines_eval_yum_stable by (simp add: maxScanTokenSize_def)
  from rewriters_idempotent [OF t, THEN conjunct1, rule_format, OF conjI, OF la apt_eval_stable_to_unstable]
    rewriters_idempotent [OF t, THEN conjunct2, rule_format, OF conjI, OF ly yum_eval_stable_to_unstable]
    apt_eval_stable_to_unstable yum_eval_stable_to_unstable
  show ?thesis by blast
qed


text \<open>
  A line of the yum file that ends in two carriage returns and a newline loses one
  carriage return in each of two successive rewrites: the second rewrite does not
  reproduce its input, so \<open>updateYUMRepoTrack\<close> reports a rewrite again.
\<close>

theorem yum_rewrite_twice_counterexample:
  "yumNewContent ''/etc/yum.repos.d/tailscale.repo'' ''unstable''
     (''baseurl=https://pkgs.tailscale.com/stable/'' @ [CR, CR, LF])
   = Inr (''baseurl=https://pkgs.tailscale.com/unstable/'' @ [CR, LF]) \<and>
   yumNewContent ''/etc/yum.repos.d/tailscale.repo'' ''unstable''
     (''baseurl=https://pkgs.tailscale.com/unstable/'' @ [CR, LF])
   = Inr (''baseurl=https://pkgs.tailscale.com/unstable/'' @ [LF]) \<and>
   ''baseurl=https://pkgs.tailscale.com/unstable/'' @ [LF]
   \<noteq> ''baseurl=https://pkgs.tailscale.com/unstable/'' @ [CR, LF]"
  by (simp add: yum_defs)

subsection \<open>Contents the apt rewriter rejects\<close>





subsection \<open>The apt rewriter on the specification's example\<close>

text \<open>
  C8 (as amended). The rewriter looks for the host \<^verbatim>\<open>pkgs.tailscale.com\<close>. For the body
  \<^verbatim>\<open>deb https://pkgs.tailscale.com/stable/ tailscale main\<close> followed by a newline and
  the target track \<^verbatim>\<open>unstable\<close> it returns
  \<^verbatim>\<open>deb https://pkgs.tailscale.com/unstable/ tailscale main\<close> followed by a newline, and
  applied to that result with \<^verbatim>\<open>unstable\<close> again it returns its input.
\<close>

theorem apt_example_rewritten_then_unchanged:
  "updateDebianAptSourcesListBytes
     ''deb https://pkgs.tailscale.com/stable/ tailscale main\<newline>'' ''unstable''
   = Inr ''deb https://pkgs.tailscale.com/unstable/ tailscale main\<newline>'' \<and>
   updateDebianAptSourcesListBytes
     ''deb https://pkgs.tailscale.com/unstable/ tailscale main\<newline>'' ''unstable''
   = Inr ''deb https://pkgs.tailscale.com/unstable/ tailscale main\<newline>''"
  using apt_eval_stable_to_unstable apt_eval_unstable_again by (rule conjI)

text \<open>
  On the body the specification gives, with the host \<^verbatim>\<open>pkgs.example.com\<close>, the rewriter
  finds no occurrence and fails.
\<close>

theorem apt_example_host_counterexample:
  "updateDebianAptSourcesListBytes
     ''deb https://pkgs.example.com/stable/ tailscale main\<newline>'' ''unstable''
   = Inl (Errorf ''unexpected/unsupported %s contents''
            [Str ''/etc/apt/sources.list.d/tailscale.list''])"
proof -
  have c1: "aptScan ''deb https://pkgs.example.com/stable/ tailscale main\<newline>'' ''unstable''
    = (''deb https://pkgs.example.com/stable/ tailscale main\<newline>'', (0, False))"
    by (simp add: scan_defs)
  show ?thesis
    by (simp add: updateDebianAptSourcesListBytes_def c1 aptSourcesFile_def)
qed

subsection \<open>The name line of the yum repository file\<close>



subsection \<open>Choice of the strategy\<close>

lemma newUpdater_linux_probe_first:
  assumes "GOOS e = ''linux''" "haveExecutable e ''pacman''"
    "track a = ''stable'' \<or> track a = ''unstable''"
  shows "newUpdater e a = Inr \<lparr>upTrack = track a, update = UpdateArchLike\<rparr>"
  using assms by (auto simp: newUpdater_def platformUpdate_def)

text \<open>
  C4. On a Linux system that the distribution lookup identifies as Debian and on which
  \<^verbatim>\<open>pacman\<close> is on the search path, \<^verbatim>\<open>newUpdater\<close> selects \<^verbatim>\<open>updateArchLike\<close>, not the
  strategy \<^verbatim>\<open>updateDebLike\<close> that the first \<^verbatim>\<open>switch\<close> assigns to Debian: the second
  \<^verbatim>\<open>switch\<close>, which probes the executables, runs whatever the first one has chosen
  and overwrites its choice.
\<close>

theorem newUpdater_debian_with_pacman:
  "distroGet debianWithPacman = Debian \<and>
   newUpdater debianWithPacman noFlags = Inr \<lparr>upTrack = ''stable'', update = UpdateArchLike\<rparr>"
  by (simp add: newUpdater_def platformUpdate_def debianWithPacman_def noFlags_def
        haveExecutable_def)

subsection \<open>Version and track given together\<close>

text \<open>
  C5 (as amended). When the variable \<^verbatim>\<open>TS_UPDATE_WIN_MSI\<close> is empty and the command has
  no positional argument, a request with both a version and a track fails with the error
  \<^verbatim>\<open>cannot specify both --version and --track\<close>, and \<^verbatim>\<open>runUpdate\<close> has then called
  neither \<^verbatim>\<open>installMSI\<close> nor \<^verbatim>\<open>newUpdater\<close> nor a strategy.
\<close>

theorem runUpdate_rejects_version_and_track:
  assumes "Getenv e winMSIEnv = []" and "args = []"
    and "version a \<noteq> []" and "track a \<noteq> []"
  shows "runUpdate e a args = (Some (New ''cannot specify both --version and --track''), [])"
  using assms by (simp add: runUpdate_def)

theorem runUpdate_rejects_version_and_track_witness:
  "runUpdate debianWithPacman bothGiven []
   = (Some (New ''cannot specify both --version and --track''), [])"
proof -
  have "Getenv debianWithPacman winMSIEnv = []" "version bothGiven \<noteq> []" "track bothGiven \<noteq> []"
    by (simp_all add: debianWithPacman_def bothGiven_def)
  from runUpdate_rejects_version_and_track [OF this(1) refl this(2,3)] show ?thesis .
qed

text \<open>
  With the variable \<^verbatim>\<open>TS_UPDATE_WIN_MSI\<close> set, \<^verbatim>\<open>runUpdate\<close> runs the installer and
  returns its result before it looks at the version and the track.
\<close>

theorem runUpdate_msi_first_counterexample:
  "version bothGiven = ''1.45.3'' \<and> track bothGiven = ''stable'' \<and>
   runUpdate msiHandoff bothGiven []
   = (None, [InstallMSI [[''msiexec.exe'', ''/i'', ''tailscale-setup-1.45.3-amd64.msi'',
                          ''/quiet'', ''/promptrestart'', ''/qn'']]])"
  by (simp add: runUpdate_def installMSI_def msiHandoff_def debianWithPacman_def bothGiven_def
        winMSIEnv_def numeral_2_eq_2)

subsection \<open>The operator declines\<close>
























subsection \<open>Verification of a download\<close>

text \<open>
  C6. In \<^verbatim>\<open>downloadURLToFile\<close>, let \<open>n\<close> be the number of bytes copied from the body of
  the download, \<open>data\<close> these bytes and \<open>wantHash\<close> the decoded checksum. The function
  succeeds only if \<open>n\<close> is the announced \<^verbatim>\<open>Content-Length\<close> and the SHA-256 digest of
  \<open>data\<close> is \<open>wantHash\<close>; if either differs it returns an error. Once the copy has ended
  without an input or output error, a different length gives the error
  \<^verbatim>\<open>downloaded n; want length\<close> and, the file closed, a different digest gives the error
  \<^verbatim>\<open>SHA-256 of downloaded MSI didn't match expected value\<close>.
\<close>

theorem downloadURLToFile_verifies:
  assumes "httpDo e ''HEAD'' urlSrc = Inr res"
    and "httpDo e ''GET'' (urlSrc @ ''.sha256'') = Inr hashRes"
    and "DecodeString (TrimSpace (fst (readAllLimit hashRes 100))) = Inr wantHash"
    and "httpDo e ''GET'' urlSrc = Inr dlRes"
    and "copyLimit e fileDst dlRes (ContentLength res) = (n, data, err)"
  shows "(downloadURLToFile e urlSrc fileDst = None \<longrightarrow>
            n = ContentLength res \<and> sha256 e data = wantHash \<and>
            data = take (nat (ContentLength res)) (Body dlRes) \<and> int (length data) = n) \<and>
         (n \<noteq> ContentLength res \<or> sha256 e data \<noteq> wantHash \<longrightarrow>
            downloadURLToFile e urlSrc fileDst \<noteq> None) \<and>
         (StatusCode res = 200 \<and> 0 < ContentLength res \<and> snd (readAllLimit hashRes 100) = None \<and>
          StatusCode dlRes = 200 \<and> writable (fileSystem e) fileDst \<and> err = None \<longrightarrow>
            (n \<noteq> ContentLength res \<longrightarrow>
               downloadURLToFile e urlSrc fileDst
               = Some (Errorf ''downloaded %v; want %v'' [Num n, Num (ContentLength res)])) \<and>
            (n = ContentLength res \<and> closeError e fileDst = None \<and> sha256 e data \<noteq> wantHash \<longrightarrow>
               downloadURLToFile e urlSrc fileDst
               = Some (Errorf ''SHA-256 of downloaded MSI didn't match expected value'' [])))"
proof -
  obtain hashHex herr where h: "readAllLimit hashRes 100 = (hashHex, herr)"
    by (cases "readAllLimit hashRes 100")
  have d: "DecodeString (TrimSpace hashHex) = Inr wantHash"
    using assms(3) h by simp
  have c: "data = take (nat (ContentLength res)) (Body dlRes) \<and> int (length data) = n"
    if "writeError e fileDst = None"
    using assms(5) that by (auto simp: copyLimit_def readAllLimit_def)
  have w: "err \<noteq> None" if "writeError e fileDst \<noteq> None"
    using assms(5) that by (auto simp: copyLimit_def readAllLimit_def)
  have s: "n = ContentLength res \<and> sha256 e data = wantHash \<and>
            data = take (nat (ContentLength res)) (Body dlRes) \<and> int (length data) = n"
    if "downloadURLToFile e urlSrc fileDst = None"
    using that assms(1,2,4,5) h d c w
    by (cases "writeError e fileDst")
       (auto simp: downloadURLToFile_def split: if_splits option.splits)
  have f: "downloadURLToFile e urlSrc fileDst
               = Some (Errorf ''downloaded %v; want %v'' [Num n, Num (ContentLength res)])"
    if "StatusCode res = 200" "0 < ContentLength res" "snd (readAllLimit hashRes 100) = None"
       "StatusCode dlRes = 200" "writable (fileSystem e) fileDst" "err = None"
       "n \<noteq> ContentLength res"
    using that assms(1,2,4,5) h d by (simp add: downloadURLToFile_def)
  have g: "downloadURLToFile e urlSrc fileDst
               = Some (Errorf ''SHA-256 of downloaded MSI didn't match expected value'' [])"
    if "StatusCode res = 200" "0 < ContentLength res" "snd (readAllLimit hashRes 100) = None"
       "StatusCode dlRes = 200" "writable (fileSystem e) fileDst" "err = None"
       "n = ContentLength res" "closeError e fileDst = None" "sha256 e data \<noteq> wantHash"
    using that assms(1,2,4,5) h d by (simp add: downloadURLToFile_def)
  show ?thesis
  proof (intro conjI impI)
    assume "downloadURLToFile e urlSrc fileDst = None"
    note r = s [OF this]
    from r [THEN conjunct1] show "n = ContentLength res" .
    from r [THEN conjunct2, THEN conjunct1] show "sha256 e data = wantHash" .
    from r [THEN conjunct2, THEN conjunct2, THEN conjunct1]
    show "data = take (nat (ContentLength res)) (Body dlRes)" .
    from r [THEN conjunct2, THEN conjunct2, THEN conjunct2]
    show "int (length data) = n" .
  next
    assume "n \<noteq> ContentLength res \<or> sha256 e data \<noteq> wantHash"
    with s show "downloadURLToFile e urlSrc fileDst \<noteq> None"
      by (cases "downloadURLToFile e urlSrc fileDst") auto
  next
    assume a: "StatusCode res = 200 \<and> 0 < ContentLength res \<and>
      snd (readAllLimit hashRes 100) = None \<and> StatusCode dlRes = 200 \<and>
      writable (fileSystem e) fileDst \<and> err = None"
    {
      assume "n \<noteq> ContentLength res"
      with a show "downloadURLToFile e urlSrc fileDst
               = Some (Errorf ''downloaded %v; want %v'' [Num n, Num (ContentLength res)])"
        by (intro f) simp_all
    next
      assume "n = ContentLength res \<and> closeError e fileDst = None \<and> sha256 e data \<noteq> wantHash"
      with a show "downloadURLToFile e urlSrc fileDst
               = Some (Errorf ''SHA-256 of downloaded MSI didn't match expected value'' [])"
        by (intro g) simp_all
    }
  qed
qed

lemma msiURL_suffix:
  "HasSuffix (msiURL @ ''.sha256'') ''.sha256''" "\<not> HasSuffix msiURL ''.sha256''"
  by (simp_all add: msiURL_def HasSuffix_def)

lemma msiDownload_head:
  "httpDo (msiDownload code checksum artifact) ''HEAD'' msiURL = Inr announced"
  by (simp add: msiDownload_def msiServer_def)

lemma msiDownload_checksum:
  "httpDo (msiDownload code checksum artifact) ''GET'' (msiURL @ ''.sha256'')
   = Inr (served code checksum)"
  using msiURL_suffix(1) by (simp add: msiDownload_def msiServer_def)

lemma msiDownload_get:
  "httpDo (msiDownload code checksum artifact) ''GET'' msiURL = Inr (served 200 artifact)"
  using msiURL_suffix(2) by (simp add: msiDownload_def msiServer_def)

lemma checksum_trim: "TrimSpace ''abcd\<newline>'' = ''abcd''"
  by (simp add: trim_defs Let_def)

lemma checksum_read:
  "readAllLimit (served code ''abcd\<newline>'') 100 = (''abcd\<newline>'', None)"
  by (simp add: readAllLimit_def served_def)

lemma checksum_decode:
  "DecodeString (TrimSpace (fst (readAllLimit (served code ''abcd\<newline>'') 100)))
   = Inr [CHR 0xAB, CHR 0xCD]"
  unfolding checksum_read fst_conv checksum_trim
  by (simp add: fromHexChar_def Let_def char_of_def bit_0)

lemma msiDownload_copy:
  "copyLimit (msiDownload code checksum artifact) msiFile (served 200 artifact)
     (ContentLength announced)
   = (int (length (take 3 artifact)), take 3 artifact, None)"
  by (simp add: copyLimit_def readAllLimit_def msiDownload_def debianWithPacman_def
        announced_def served_def)

lemma msiDownload_env:
  "writable (fileSystem (msiDownload code checksum artifact)) msiFile"
  "closeError (msiDownload code checksum artifact) msiFile = None"
  "sha256 (msiDownload code checksum artifact) ''MSI'' = [CHR 0xAB, CHR 0xCD]"
  "sha256 (msiDownload code checksum artifact) ''MSX'' = [CHR 0x00, CHR 0x00]"
  by (simp_all add: msiDownload_def debianWithPacman_def)

lemma served_simps:
  "StatusCode announced = 200" "ContentLength announced = 3"
  "StatusCode (served code body) = code"
  by (simp_all add: announced_def served_def)

lemma downloadURLToFile_msiDownload:
  "downloadURLToFile (msiDownload code ''abcd\<newline>'' ''MSI'') msiURL msiFile = None"
  unfolding downloadURLToFile_def msiDownload_head msiDownload_checksum msiDownload_get
    sum.case checksum_read prod.case Let_def served_simps
  using checksum_decode [of code]
  unfolding checksum_read fst_conv msiDownload_copy
  by (simp add: msiDownload_env msiDownload_copy [unfolded served_simps])

theorem downloadURLToFile_verifies_witness:
  "downloadURLToFile verifiedDownload msiURL msiFile = None \<and>
   sha256 verifiedDownload ''MSI'' = [CHR 0xAB, CHR 0xCD] \<and>
   downloadURLToFile truncatedDownload msiURL msiFile
   = Some (Errorf ''downloaded %v; want %v'' [Num 2, Num 3]) \<and>
   downloadURLToFile tamperedDownload msiURL msiFile
   = Some (Errorf ''SHA-256 of downloaded MSI didn't match expected value'' [])"
proof -
  note T = downloadURLToFile_verifies
    [OF msiDownload_head msiDownload_checksum checksum_decode msiDownload_get msiDownload_copy]
  have v: "downloadURLToFile verifiedDownload msiURL msiFile = None"
    unfolding verifiedDownload_def by (rule downloadURLToFile_msiDownload)
  have s: "sha256 verifiedDownload ''MSI'' = [CHR 0xAB, CHR 0xCD]"
    using T [of 200 "''MSI''", THEN conjunct1] v by (simp add: verifiedDownload_def)
  have t: "downloadURLToFile truncatedDownload msiURL msiFile
   = Some (Errorf ''downloaded %v; want %v'' [Num 2, Num 3])"
    using T [of 200 "''MS''", THEN conjunct2, THEN conjunct2]
    by (simp add: truncatedDownload_def served_simps checksum_read msiDownload_env)
  have m: "downloadURLToFile tamperedDownload msiURL msiFile
   = Some (Errorf ''SHA-256 of downloaded MSI didn't match expected value'' [])"
    using T [of 200 "''MSX''", THEN conjunct2, THEN conjunct2]
    by (simp add: tamperedDownload_def served_simps checksum_read msiDownload_env)
  show ?thesis
    by (intro conjI) (rule v, rule s, rule t, rule m)
qed


end
